theory Spec2Isabelle
  imports Complex_Main "HOL-Library.Char_ord" "HOL-Library.List_Lexorder" "HOL-Library.Sublist"
    "HOL-Library.Multiset"
begin

section \<open>Python values, strings and exceptions\<close>

text \<open>
  The glossary is whatever \<^verbatim>\<open>yaml.safe_load\<close> returns, and the code inspects it
  dynamically (\<^verbatim>\<open>isinstance(definition, dict)\<close>, \<^verbatim>\<open>'see_also' in definition\<close>,
  \<^verbatim>\<open>.get('definitions', [])\<close>). The values are therefore kept untyped: null, booleans,
  integers, strings, sequences and mappings with string keys. A mapping is an association
  list in insertion order; a lookup takes the first binding of a key.

  A string is a list of characters read as the code points U+0000 to U+00FF.
\<close>

datatype yaml =
    YNull
  | YBool bool
  | YInt int
  | YStr string
  | YList "yaml list"
  | YDict "(string \<times> yaml) list"

datatype error =
    AttributeError
  | TypeError
  | KeyError
  | ValidationError
  | OSError
  | AgentError

text \<open>\<^verbatim>\<open>str.lower()\<close> on the code points below 256: the ASCII capitals and the Latin-1
  capitals U+00C0..U+00DE (without the multiplication sign U+00D7) move up by 32.\<close>

definition lower_char :: "char \<Rightarrow> char" where
  "lower_char c =
     (let n = (of_char c :: nat) in
      if (65 \<le> n \<and> n \<le> 90) \<or> (192 \<le> n \<and> n \<le> 222 \<and> n \<noteq> 215)
      then char_of (n + 32) else c)"

definition lower :: "string \<Rightarrow> string" where
  "lower s = map lower_char s"

text \<open>\<^verbatim>\<open>s.startswith(p)\<close>.\<close>

definition startswith :: "string \<Rightarrow> string \<Rightarrow> bool" where
  "startswith s p = prefix p s"

text \<open>Truth value of an object, as \<^verbatim>\<open>if not term_data\<close> tests it.\<close>

fun truthy :: "yaml \<Rightarrow> bool" where
  "truthy YNull = False"
| "truthy (YBool b) = b"
| "truthy (YInt i) = (i \<noteq> 0)"
| "truthy (YStr s) = (s \<noteq> [])"
| "truthy (YList xs) = (xs \<noteq> [])"
| "truthy (YDict d) = (d \<noteq> [])"

text \<open>\<^verbatim>\<open>obj.get(key, default)\<close>: only a mapping has the method.\<close>

fun dict_get :: "yaml \<Rightarrow> string \<Rightarrow> yaml \<Rightarrow> error + yaml" where
  "dict_get (YDict d) key dflt = Inr (case map_of d key of Some v \<Rightarrow> v | None \<Rightarrow> dflt)"
| "dict_get _ key dflt = Inl AttributeError"

text \<open>\<^verbatim>\<open>for x in obj\<close>: a sequence yields its elements, a mapping its keys, a string its
  characters as one-character strings; anything else is not iterable.\<close>

fun py_iter :: "yaml \<Rightarrow> error + yaml list" where
  "py_iter (YList xs) = Inr xs"
| "py_iter (YDict d) = Inr (map (\<lambda>kv. YStr (fst kv)) d)"
| "py_iter (YStr s) = Inr (map (\<lambda>c. YStr [c]) s)"
| "py_iter _ = Inl TypeError"

section \<open>Data models (models.py)\<close>

record Definition =
  "text" :: string
  see_also :: "string list"

record GlossaryTerm =
  "term" :: string
  definitions :: "Definition list"

record TermResult =
  "term" :: string
  definitions :: "Definition list"
  confidence :: real
  match_type :: string

text \<open>Constructing a \<^verbatim>\<open>Definition\<close> validates the fields against their annotations
  \<^verbatim>\<open>text: str\<close> and \<^verbatim>\<open>see_also: List[str]\<close>; a value of another kind raises
  a validation error.\<close>

fun validate_str :: "yaml \<Rightarrow> error + string" where
  "validate_str (YStr s) = Inr s"
| "validate_str _ = Inl ValidationError"

fun validate_strs :: "yaml list \<Rightarrow> error + string list" where
  "validate_strs [] = Inr []"
| "validate_strs (x # xs) =
     (case validate_str x of
        Inl e \<Rightarrow> Inl e
      | Inr s \<Rightarrow> (case validate_strs xs of Inl e \<Rightarrow> Inl e | Inr ss \<Rightarrow> Inr (s # ss)))"

fun validate_str_list :: "yaml \<Rightarrow> error + string list" where
  "validate_str_list (YList xs) = validate_strs xs"
| "validate_str_list _ = Inl ValidationError"

definition new_Definition :: "yaml \<Rightarrow> yaml \<Rightarrow> error + Definition" where
  "new_Definition t sa =
     (case validate_str t of
        Inl e \<Rightarrow> Inl e
      | Inr s \<Rightarrow>
          (case validate_str_list sa of
             Inl e \<Rightarrow> Inl e
           | Inr names \<Rightarrow> Inr \<lparr>text = s, see_also = names\<rparr>))"

section \<open>GlossaryManager (glossary.py)\<close>

record store =
  glossary :: "(string \<times> yaml) list"
  normalized_terms :: "string \<rightharpoonup> string"
  all_searchable_terms :: "string list"

definition empty_store :: store where
  "empty_store = \<lparr>glossary = [], normalized_terms = Map.empty, all_searchable_terms = []\<rparr>"

subsection \<open>Index building\<close>

text \<open>The three nested loops of \<^verbatim>\<open>_build_search_indexes\<close> mutate the manager as they go.
  Each returns the exception that interrupted it, if any, together with the state reached
  at that moment.\<close>

definition add_name :: "string \<Rightarrow> string \<Rightarrow> store \<Rightarrow> store" where
  "add_name name owner st =
     st\<lparr>normalized_terms := (normalized_terms st)(lower name \<mapsto> owner),
        all_searchable_terms := all_searchable_terms st @ [name]\<rparr>"

fun index_see_also :: "string \<Rightarrow> yaml list \<Rightarrow> store \<Rightarrow> error option \<times> store" where
  "index_see_also owner [] st = (None, st)"
| "index_see_also owner (x # rest) st =
     (case x of
        YStr s \<Rightarrow> index_see_also owner rest (add_name s owner st)
      | _ \<Rightarrow> (Some AttributeError, st))"

fun index_definitions :: "string \<Rightarrow> yaml list \<Rightarrow> store \<Rightarrow> error option \<times> store" where
  "index_definitions owner [] st = (None, st)"
| "index_definitions owner (d # rest) st =
     (case d of
        YDict dd \<Rightarrow>
          (case map_of dd ''see_also'' of
             None \<Rightarrow> index_definitions owner rest st
           | Some v \<Rightarrow>
               (case py_iter v of
                  Inl e \<Rightarrow> (Some e, st)
                | Inr names \<Rightarrow>
                    (case index_see_also owner names st of
                       (Some e, st') \<Rightarrow> (Some e, st')
                     | (None, st') \<Rightarrow> index_definitions owner rest st')))
      | _ \<Rightarrow> index_definitions owner rest st)"

fun index_terms :: "string list \<Rightarrow> store \<Rightarrow> error option \<times> store" where
  "index_terms [] st = (None, st)"
| "index_terms (t # rest) st =
     (let st1 = add_name t t st in
      case map_of (glossary st1) t of
        None \<Rightarrow> (Some KeyError, st1)
      | Some term_data \<Rightarrow>
          (case dict_get term_data ''definitions'' (YList []) of
             Inl e \<Rightarrow> (Some e, st1)
           | Inr defs \<Rightarrow>
               (case py_iter defs of
                  Inl e \<Rightarrow> (Some e, st1)
                | Inr ds \<Rightarrow>
                    (case index_definitions t ds st1 of
                       (Some e, st2) \<Rightarrow> (Some e, st2)
                     | (None, st2) \<Rightarrow> index_terms rest st2))))"

definition build_search_indexes :: "store \<Rightarrow> error option \<times> store" where
  "build_search_indexes st =
     index_terms (map fst (glossary st))
       (st\<lparr>normalized_terms := Map.empty, all_searchable_terms := []\<rparr>)"

subsection \<open>Loading\<close>

text \<open>What \<^verbatim>\<open>load_glossary\<close> finds at \<^verbatim>\<open>glossary_path\<close>: no file, a file that cannot
  be opened or parsed (the exception of \<^verbatim>\<open>open\<close> or \<^verbatim>\<open>yaml.safe_load\<close>), or the parsed
  document. The printed line is returned with the new state.\<close>

datatype source = Missing | Unreadable error | Parsed yaml

datatype log_line = Loaded nat | NotFound | ErrorLoading error

definition load_glossary :: "source \<Rightarrow> store \<Rightarrow> log_line \<times> store" where
  "load_glossary src st =
     (case src of
        Missing \<Rightarrow> (NotFound, st)
      | Unreadable e \<Rightarrow> (ErrorLoading e, empty_store)
      | Parsed y \<Rightarrow>
          (case y of
             YDict d \<Rightarrow>
               (case build_search_indexes (st\<lparr>glossary := d\<rparr>) of
                  (Some e, st') \<Rightarrow> (ErrorLoading e, empty_store)
                | (None, st') \<Rightarrow> (Loaded (length (glossary st')), st'))
           | _ \<Rightarrow> (ErrorLoading AttributeError, empty_store)))"

text \<open>The constructor sets the three fields empty and loads.\<close>

definition new_GlossaryManager :: "source \<Rightarrow> log_line \<times> store" where
  "new_GlossaryManager src = load_glossary src empty_store"

subsection \<open>Accessors\<close>

definition get_term_data :: "store \<Rightarrow> string \<Rightarrow> yaml" where
  "get_term_data st t = (case map_of (glossary st) t of Some d \<Rightarrow> d | None \<Rightarrow> YDict [])"

text \<open>The conversion loop of \<^verbatim>\<open>get_term_object\<close>. \<^verbatim>\<open>str(def_data)\<close> is the builtin;
  its value on the entries that are not mappings is the parameter \<open>str_of\<close>.\<close>

fun convert_definitions ::
  "(yaml \<Rightarrow> string) \<Rightarrow> yaml list \<Rightarrow> Definition list \<Rightarrow> error + Definition list" where
  "convert_definitions str_of [] acc = Inr acc"
| "convert_definitions str_of (def_data # rest) acc =
     (case def_data of
        YDict d \<Rightarrow>
          (case new_Definition
                  (case map_of d ''text'' of Some v \<Rightarrow> v | None \<Rightarrow> YStr [])
                  (case map_of d ''see_also'' of Some v \<Rightarrow> v | None \<Rightarrow> YList []) of
             Inl e \<Rightarrow> Inl e
           | Inr x \<Rightarrow> convert_definitions str_of rest (acc @ [x]))
      | _ \<Rightarrow>
          convert_definitions str_of rest (acc @ [\<lparr>text = str_of def_data, see_also = []\<rparr>]))"

definition get_term_object :: "(yaml \<Rightarrow> string) \<Rightarrow> store \<Rightarrow> string \<Rightarrow> error + GlossaryTerm" where
  "get_term_object str_of st t =
     (let term_data = get_term_data st t in
      if \<not> truthy term_data then Inr \<lparr>GlossaryTerm.term = t, GlossaryTerm.definitions = []\<rparr>
      else
        (case dict_get term_data ''definitions'' (YList []) of
           Inl e \<Rightarrow> Inl e
         | Inr defs \<Rightarrow>
             (case py_iter defs of
                Inl e \<Rightarrow> Inl e
              | Inr ds \<Rightarrow>
                  (case convert_definitions str_of ds [] of
                     Inl e \<Rightarrow> Inl e
                   | Inr converted \<Rightarrow>
                       Inr \<lparr>GlossaryTerm.term = t, GlossaryTerm.definitions = converted\<rparr>))))"

definition term_exists :: "store \<Rightarrow> string \<Rightarrow> bool" where
  "term_exists st t = (t \<in> fst ` set (glossary st))"

definition get_original_term :: "store \<Rightarrow> string \<Rightarrow> string" where
  "get_original_term st normalized_term =
     (case normalized_terms st (lower normalized_term) of
        Some t \<Rightarrow> t
      | None \<Rightarrow> normalized_term)"

text \<open>\<^verbatim>\<open>if prefix:\<close> holds for a prefix that is given and not empty.\<close>

definition list_terms :: "store \<Rightarrow> string option \<Rightarrow> string list" where
  "list_terms st prefix_opt =
     (let terms = map fst (glossary st) in
      sort (case prefix_opt of
              None \<Rightarrow> terms
            | Some p \<Rightarrow>
                if p \<noteq> [] then filter (\<lambda>t. startswith (lower t) (lower p)) terms
                else terms))"


text \<open>\<^verbatim>\<open>sep.join(parts)\<close>.\<close>

fun join :: "string \<Rightarrow> string list \<Rightarrow> string" where
  "join sep [] = []"
| "join sep [x] = x"
| "join sep (x # y # rest) = x @ sep @ join sep (y # rest)"

text \<open>\<^verbatim>\<open>get_all_terms_text\<close>. The order in which \<^verbatim>\<open>list(set(all_see_also))\<close>
  enumerates the distinct names is not fixed by the language; it is the parameter
  \<open>list_of_set\<close>.\<close>

fun all_terms_text_loop ::
  "(yaml \<Rightarrow> string) \<Rightarrow> (string list \<Rightarrow> string list) \<Rightarrow> store \<Rightarrow> string list \<Rightarrow>
   string list \<Rightarrow> error + string list" where
  "all_terms_text_loop str_of list_of_set st [] text_parts = Inr text_parts"
| "all_terms_text_loop str_of list_of_set st (t # rest) text_parts =
     (case get_term_object str_of st t of
        Inl e \<Rightarrow> Inl e
      | Inr term_obj \<Rightarrow>
          (let definitions_text = join ''; '' (map text (GlossaryTerm.definitions term_obj));
               parts1 = text_parts @ [t @ '': '' @ definitions_text];
               all_see_also = concat (map see_also (GlossaryTerm.definitions term_obj))
           in all_terms_text_loop str_of list_of_set st rest
                (if all_see_also \<noteq> []
                 then parts1 @ [''  (See also: '' @ join '', '' (list_of_set all_see_also) @ '')'']
                 else parts1)))"

definition get_all_terms_text ::
  "(yaml \<Rightarrow> string) \<Rightarrow> (string list \<Rightarrow> string list) \<Rightarrow> store \<Rightarrow> error + string" where
  "get_all_terms_text str_of list_of_set st =
     (case all_terms_text_loop str_of list_of_set st (map fst (glossary st)) [] of
        Inl e \<Rightarrow> Inl e
      | Inr text_parts \<Rightarrow> Inr (join [CHR 0x0A] text_parts))"

section \<open>Search (search.py)\<close>

subsection \<open>The library calls\<close>

text \<open>\<^verbatim>\<open>list.sort(key=..., reverse=True)\<close>: the list is reversed, sorted stably by the key in
  ascending order, and reversed again.\<close>

definition sort_reverse :: "('a \<Rightarrow> real) \<Rightarrow> 'a list \<Rightarrow> 'a list" where
  "sort_reverse key xs = rev (sort_key key (rev xs))"

text \<open>Python's \<^verbatim>\<open>float\<close> is the IEEE 754 binary64 format. A float is kept as the real
  number it denotes. \<^verbatim>\<open>x / y\<close> on floats is the exact quotient rounded to the nearest
  double, ties to the even significand: the quotient is scaled by the power of two that
  brings it to 53 significant bits (or to the least exponent, -1074, for a subnormal), rounded
  to an integer and scaled back. Quotients beyond the largest double are not modelled; the
  code divides scores by 100 only.\<close>

definition round_half_even :: "real \<Rightarrow> int" where
  "round_half_even y =
     (let f = \<lfloor>y\<rfloor>; d = y - of_int f
      in if d < 1 / 2 then f
         else if 1 / 2 < d then f + 1
         else if even f then f else f + 1)"

definition double_exponent :: "real \<Rightarrow> int" where
  "double_exponent x = max (\<lfloor>log 2 \<bar>x\<bar>\<rfloor> - 52) (- 1074)"

definition round_double :: "real \<Rightarrow> real" where
  "round_double x =
     (if x = 0 then 0
      else of_int (round_half_even (x / 2 powi double_exponent x)) * 2 powi double_exponent x)"

definition float_div :: "real \<Rightarrow> real \<Rightarrow> real" where
  "float_div x y = round_double (x / y)"

text \<open>Modelled from the spec: \<^verbatim>\<open>rapidfuzz.process.extract\<close> is a library function, not part
  of the repository. It scores the query against every candidate of the list with the
  scorer (\<^verbatim>\<open>fuzz.WRatio\<close>, the parameter \<open>scorer\<close>), retains only the candidates scoring
  at least the cutoff, orders them by descending score and returns at most \<open>limit\<close> of
  them, each as the triple of the candidate, its score and its position in the list.\<close>

definition process_extract ::
  "(string \<Rightarrow> string \<Rightarrow> real) \<Rightarrow> string \<Rightarrow> string list \<Rightarrow> nat \<Rightarrow> real \<Rightarrow>
   (string \<times> real \<times> nat) list" where
  "process_extract scorer query choices limit score_cutoff =
     take limit
       (sort_reverse (\<lambda>m. fst (snd m))
          (filter (\<lambda>m. score_cutoff \<le> fst (snd m))
             (map (\<lambda>(i, choice). (choice, scorer query choice, i))
                (zip [0..<length choices] choices))))"

subsection \<open>FuzzySearch\<close>

text \<open>The loop over the matches, with the set \<^verbatim>\<open>seen_terms\<close> and the list \<^verbatim>\<open>results\<close>
  it builds.\<close>

fun collect_matches ::
  "(yaml \<Rightarrow> string) \<Rightarrow> store \<Rightarrow> (string \<times> real \<times> nat) list \<Rightarrow> string set \<Rightarrow>
   TermResult list \<Rightarrow> error + TermResult list" where
  "collect_matches str_of st [] seen_terms results = Inr results"
| "collect_matches str_of st (m # rest) seen_terms results =
     (let match_text = fst m; score = fst (snd m);
          original_term = get_original_term st match_text
      in if original_term \<in> seen_terms then collect_matches str_of st rest seen_terms results
         else if term_exists st original_term then
           (case get_term_object str_of st original_term of
              Inl e \<Rightarrow> Inl e
            | Inr term_obj \<Rightarrow>
                collect_matches str_of st rest (insert original_term seen_terms)
                  (results @
                    [\<lparr>term = original_term,
                      definitions = GlossaryTerm.definitions term_obj,
                      confidence = float_div score 100,
                      match_type = ''fuzzy''\<rparr>]))
         else collect_matches str_of st rest (insert original_term seen_terms) results)"

text \<open>The scoring pass: extraction and the loop, before the final sort.\<close>

definition scoring_pass ::
  "(yaml \<Rightarrow> string) \<Rightarrow> (string \<Rightarrow> string \<Rightarrow> real) \<Rightarrow> store \<Rightarrow> string \<Rightarrow> int \<Rightarrow>
   error + TermResult list" where
  "scoring_pass str_of scorer st query threshold =
     collect_matches str_of st
       (process_extract scorer query (all_searchable_terms st) 10 (of_int threshold)) {} []"

definition FuzzySearch_search ::
  "(yaml \<Rightarrow> string) \<Rightarrow> (string \<Rightarrow> string \<Rightarrow> real) \<Rightarrow> store \<Rightarrow> string \<Rightarrow> int \<Rightarrow>
   error + TermResult list" where
  "FuzzySearch_search str_of scorer st query threshold =
     (if all_searchable_terms st = [] then Inr []
      else
        (case scoring_pass str_of scorer st query threshold of
           Inl e \<Rightarrow> Inl e
         | Inr results \<Rightarrow> Inr (sort_reverse confidence results)))"

text \<open>\<^verbatim>\<open>for r in results: r.match_type = label\<close>.\<close>

fun relabel :: "string \<Rightarrow> TermResult list \<Rightarrow> TermResult list" where
  "relabel label [] = []"
| "relabel label (r # rest) = r\<lparr>match_type := label\<rparr> # relabel label rest"

subsection \<open>ExactSearch\<close>

definition ExactSearch_lookup ::
  "(yaml \<Rightarrow> string) \<Rightarrow> (string \<Rightarrow> string \<Rightarrow> real) \<Rightarrow> store \<Rightarrow> string \<Rightarrow>
   error + TermResult list" where
  "ExactSearch_lookup str_of scorer st t =
     (let normalized_term = lower t in
      case normalized_terms st normalized_term of
        Some original_term \<Rightarrow>
          (case get_term_object str_of st original_term of
             Inl e \<Rightarrow> Inl e
           | Inr term_obj \<Rightarrow>
               Inr [\<lparr>term = original_term,
                     definitions = GlossaryTerm.definitions term_obj,
                     confidence = 1,
                     match_type = ''exact''\<rparr>])
      | None \<Rightarrow>
          (case FuzzySearch_search str_of scorer st t 60 of
             Inl e \<Rightarrow> Inl e
           | Inr results \<Rightarrow> Inr (relabel ''suggestion'' (take 3 results))))"

subsection \<open>AgenticSearch\<close>

text \<open>The agent, when it could be initialised, maps the request and the glossary text to
  the list of term names it answers with, or raises.\<close>

type_synonym agent = "string \<Rightarrow> string \<Rightarrow> error + string list"

fun collect_relevant ::
  "(yaml \<Rightarrow> string) \<Rightarrow> store \<Rightarrow> string list \<Rightarrow> TermResult list \<Rightarrow> error + TermResult list" where
  "collect_relevant str_of st [] responses = Inr responses"
| "collect_relevant str_of st (t # rest) responses =
     (if term_exists st t then
        (case get_term_object str_of st t of
           Inl e \<Rightarrow> Inl e
         | Inr term_obj \<Rightarrow>
             collect_relevant str_of st rest
               (responses @
                 [\<lparr>term = t,
                   definitions = GlossaryTerm.definitions term_obj,
                   confidence = 1,
                   match_type = ''agentic''\<rparr>]))
      else collect_relevant str_of st rest responses)"

text \<open>The body of the \<^verbatim>\<open>try\<close> block of \<^verbatim>\<open>AgenticSearch.search\<close>.\<close>

definition agentic_attempt ::
  "(yaml \<Rightarrow> string) \<Rightarrow> (string list \<Rightarrow> string list) \<Rightarrow> agent \<Rightarrow> store \<Rightarrow> string \<Rightarrow>
   string option \<Rightarrow> error + TermResult list" where
  "agentic_attempt str_of list_of_set run st query context =
     (let full_query =
            (case context of
               None \<Rightarrow> query
             | Some c \<Rightarrow> if c \<noteq> [] then query @ '' (Context: '' @ c @ '')'' else query)
      in case get_all_terms_text str_of list_of_set st of
           Inl e \<Rightarrow> Inl e
         | Inr glossary_text \<Rightarrow>
             (case run full_query glossary_text of
                Inl e \<Rightarrow> Inl e
              | Inr relevant_terms \<Rightarrow> collect_relevant str_of st relevant_terms []))"

definition AgenticSearch_search ::
  "(yaml \<Rightarrow> string) \<Rightarrow> (string \<Rightarrow> string \<Rightarrow> real) \<Rightarrow> (string list \<Rightarrow> string list) \<Rightarrow>
   agent option \<Rightarrow> store \<Rightarrow> string \<Rightarrow> string option \<Rightarrow> error + TermResult list" where
  "AgenticSearch_search str_of scorer list_of_set agent st query context =
     (case agent of
        None \<Rightarrow>
          (case FuzzySearch_search str_of scorer st query 60 of
             Inl e \<Rightarrow> Inl e
           | Inr results \<Rightarrow> Inr (relabel ''agentic_fallback'' (take 3 results)))
      | Some run \<Rightarrow>
          (case agentic_attempt str_of list_of_set run st query context of
             Inr responses \<Rightarrow> Inr responses
           | Inl e \<Rightarrow>
               (case FuzzySearch_search str_of scorer st query 60 of
                  Inl e' \<Rightarrow> Inl e'
                | Inr results \<Rightarrow> Inr (relabel ''agentic_fallback'' (take 3 results)))))"


section \<open>Notions used to state the properties\<close>

text \<open>The names under which the index builder files a term of the table \<open>g\<close>: the term
  itself, then the strings of every \<^verbatim>\<open>see_also\<close> entry of its definitions that are
  mappings, in order. Lemma \<open>searchable_terms_of_loaded\<close> below shows that the searchable
  name list of a loaded store is the concatenation of these lists.\<close>

definition strs :: "yaml list \<Rightarrow> string list" where
  "strs xs = concat (map (\<lambda>x. case x of YStr s \<Rightarrow> [s] | _ \<Rightarrow> []) xs)"

definition definition_names :: "yaml \<Rightarrow> string list" where
  "definition_names d =
     (case d of
        YDict dd \<Rightarrow>
          (case map_of dd ''see_also'' of
             None \<Rightarrow> []
           | Some v \<Rightarrow> (case py_iter v of Inl e \<Rightarrow> [] | Inr xs \<Rightarrow> strs xs))
      | _ \<Rightarrow> [])"

definition term_names :: "(string \<times> yaml) list \<Rightarrow> string \<Rightarrow> string list" where
  "term_names g t =
     t # (case map_of g t of
            None \<Rightarrow> []
          | Some term_data \<Rightarrow>
              (case dict_get term_data ''definitions'' (YList []) of
                 Inl e \<Rightarrow> []
               | Inr defs \<Rightarrow>
                   (case py_iter defs of
                      Inl e \<Rightarrow> []
                    | Inr ds \<Rightarrow> concat (map definition_names ds))))"

text \<open>The writes of the index builder, as pairs of a name and the term it is filed under,
  and their effect on a store.\<close>

definition index_writes :: "(string \<times> yaml) list \<Rightarrow> string list \<Rightarrow> (string \<times> string) list" where
  "index_writes g ks = concat (map (\<lambda>t. map (\<lambda>n. (n, t)) (term_names g t)) ks)"

definition apply_writes :: "(string \<times> string) list \<Rightarrow> store \<Rightarrow> store" where
  "apply_writes ws st = foldl (\<lambda>s w. add_name (fst w) (snd w) s) st ws"

section \<open>Example corpora\<close>

text \<open>\<^verbatim>\<open>str\<close> for the examples: a string is its own rendering; the examples apply it
  to strings only.\<close>

definition example_str :: "yaml \<Rightarrow> string" where
  "example_str v = (case v of YStr s \<Rightarrow> s | _ \<Rightarrow> ''?'')"

text \<open>The corpus of the scenario: one term with one definition and one cross-reference.\<close>

definition http_corpus :: yaml where
  "http_corpus =
     YDict [(''HTTP'',
       YDict [(''definitions'',
         YList [YDict [(''text'', YStr ''HyperText Transfer Protocol''),
                       (''see_also'', YList [YStr ''web protocol''])]])])]"

definition http_store :: store where
  "http_store =
     \<lparr>glossary =
        [(''HTTP'',
          YDict [(''definitions'',
            YList [YDict [(''text'', YStr ''HyperText Transfer Protocol''),
                          (''see_also'', YList [YStr ''web protocol''])]])])],
      normalized_terms = [''http'' \<mapsto> ''HTTP'', ''web protocol'' \<mapsto> ''HTTP''],
      all_searchable_terms = [''HTTP'', ''web protocol'']\<rparr>"

text \<open>A document whose second entry is not a mapping: index building raises after the
  first term has been filed.\<close>

definition broken_corpus :: yaml where
  "broken_corpus =
     YDict [(''HTTP'', YDict [(''definitions'', YList [YDict [(''text'', YStr ''a protocol'')]])]),
            (''FTP'', YNull)]"

text \<open>Three terms, loaded in an order that is not the sorted one.\<close>

definition three_store :: store where
  "three_store =
     \<lparr>glossary = [(''ftp'', YDict []), (''HTTPS'', YDict []), (''HTTP'', YDict [])],
      normalized_terms = [''ftp'' \<mapsto> ''ftp'', ''https'' \<mapsto> ''HTTPS'', ''http'' \<mapsto> ''HTTP''],
      all_searchable_terms = [''ftp'', ''HTTPS'', ''HTTP'']\<rparr>"

text \<open>A scorer for the examples: the share of the longer string that the common prefix
  covers, as a percentage.\<close>

definition prefix_scorer :: "string \<Rightarrow> string \<Rightarrow> real" where
  "prefix_scorer q c =
     100 * real (length (longest_common_prefix q c)) / real (max (length q) (length c))"

text \<open>Four terms, one of them with two cross-references, and the store the constructor
  builds from them.\<close>

definition web_corpus :: yaml where
  "web_corpus =
     YDict [(''HTML'', YDict [(''definitions'', YList [YStr ''markup language''])]),
            (''HTTP'', YDict [(''definitions'',
               YList [YDict [(''text'', YStr ''transfer protocol''),
                             (''see_also'', YList [YStr ''web protocol'', YStr ''HTTPS''])]])]),
            (''HTTPD'', YDict [(''definitions'', YList [YDict [(''text'', YStr ''server'')]])]),
            (''HTTP2'', YDict [])]"

definition web_store :: store where
  "web_store =
     \<lparr>glossary =
        [(''HTML'', YDict [(''definitions'', YList [YStr ''markup language''])]),
         (''HTTP'', YDict [(''definitions'',
            YList [YDict [(''text'', YStr ''transfer protocol''),
                          (''see_also'', YList [YStr ''web protocol'', YStr ''HTTPS''])]])]),
         (''HTTPD'', YDict [(''definitions'', YList [YDict [(''text'', YStr ''server'')]])]),
         (''HTTP2'', YDict [])],
      normalized_terms =
        [''html'' \<mapsto> ''HTML'', ''http'' \<mapsto> ''HTTP'', ''web protocol'' \<mapsto> ''HTTP'',
         ''https'' \<mapsto> ''HTTP'', ''httpd'' \<mapsto> ''HTTPD'', ''http2'' \<mapsto> ''HTTP2''],
      all_searchable_terms =
        [''HTML'', ''HTTP'', ''web protocol'', ''HTTPS'', ''HTTPD'', ''HTTP2'']\<rparr>"

text \<open>The results of the fuzzy search for \<open>HTTO\<close> at threshold 50 in that store.\<close>

definition web_results :: "TermResult list" where
  "web_results =
     [\<lparr>term = ''HTTP'',
       definitions = [\<lparr>text = ''transfer protocol'', see_also = [''web protocol'', ''HTTPS'']\<rparr>],
       confidence = 3 / 4, match_type = ''fuzzy''\<rparr>,
      \<lparr>term = ''HTTPD'', definitions = [\<lparr>text = ''server'', see_also = []\<rparr>],
       confidence = 5404319552844595 / 9007199254740992, match_type = ''fuzzy''\<rparr>,
      \<lparr>term = ''HTTP2'', definitions = [], confidence = 5404319552844595 / 9007199254740992, match_type = ''fuzzy''\<rparr>,
      \<lparr>term = ''HTML'', definitions = [\<lparr>text = ''markup language'', see_also = []\<rparr>],
       confidence = 1 / 2, match_type = ''fuzzy''\<rparr>]"

text \<open>A document in which a \<^verbatim>\<open>see_also\<close> entry is a plain string instead of a list. The
  index builder iterates over its characters, so the load succeeds; the store is the one the
  constructor builds.\<close>

definition scalar_corpus :: yaml where
  "scalar_corpus =
     YDict [(''HTTP'', YDict [(''definitions'',
               YList [YDict [(''text'', YStr ''transfer protocol''),
                             (''see_also'', YStr ''web'')]])])]"

definition scalar_store :: store where
  "scalar_store =
     \<lparr>glossary =
        [(''HTTP'', YDict [(''definitions'',
            YList [YDict [(''text'', YStr ''transfer protocol''),
                          (''see_also'', YStr ''web'')]])])],
      normalized_terms =
        [''http'' \<mapsto> ''HTTP'', ''w'' \<mapsto> ''HTTP'', ''e'' \<mapsto> ''HTTP'', ''b'' \<mapsto> ''HTTP''],
      all_searchable_terms = [''HTTP'', ''w'', ''e'', ''b'']\<rparr>"

text \<open>The suggestions for \<open>HTTO\<close> in the store of four terms.\<close>

definition web_suggestions :: "TermResult list" where
  "web_suggestions =
     [\<lparr>term = ''HTTP'',
       definitions = [\<lparr>text = ''transfer protocol'', see_also = [''web protocol'', ''HTTPS'']\<rparr>],
       confidence = 3 / 4, match_type = ''suggestion''\<rparr>,
      \<lparr>term = ''HTTPD'', definitions = [\<lparr>text = ''server'', see_also = []\<rparr>],
       confidence = 5404319552844595 / 9007199254740992, match_type = ''suggestion''\<rparr>,
      \<lparr>term = ''HTTP2'', definitions = [], confidence = 5404319552844595 / 9007199254740992, match_type = ''suggestion''\<rparr>]"

text \<open>Two keys that differ in case only.\<close>

definition case_corpus :: yaml where
  "case_corpus =
     YDict [(''HTTP'', YDict [(''definitions'', YList [YDict [(''text'', YStr ''the protocol'')]])]),
            (''http'', YDict [(''definitions'', YList [YDict [(''text'', YStr ''the URL scheme'')]])])]"

definition case_store :: store where
  "case_store =
     \<lparr>glossary =
        [(''HTTP'', YDict [(''definitions'', YList [YDict [(''text'', YStr ''the protocol'')]])]),
         (''http'', YDict [(''definitions'', YList [YDict [(''text'', YStr ''the URL scheme'')]])])],
      normalized_terms = [''http'' \<mapsto> ''http''],
      all_searchable_terms = [''HTTP'', ''http'']\<rparr>"

text \<open>Two terms that name each other as cross-references.\<close>

definition xref_corpus :: yaml where
  "xref_corpus =
     YDict [(''HTTP'', YDict [(''definitions'',
               YList [YDict [(''text'', YStr ''transfer protocol''),
                             (''see_also'', YList [YStr ''HTTPS''])]])]),
            (''HTTPS'', YDict [(''definitions'',
               YList [YDict [(''text'', YStr ''secure transfer protocol''),
                             (''see_also'', YList [YStr ''HTTP''])]])])]"

definition xref_store :: store where
  "xref_store =
     \<lparr>glossary =
        [(''HTTP'', YDict [(''definitions'',
            YList [YDict [(''text'', YStr ''transfer protocol''),
                          (''see_also'', YList [YStr ''HTTPS''])]])]),
         (''HTTPS'', YDict [(''definitions'',
            YList [YDict [(''text'', YStr ''secure transfer protocol''),
                          (''see_also'', YList [YStr ''HTTP''])]])])],
      normalized_terms = [''https'' \<mapsto> ''HTTPS'', ''http'' \<mapsto> ''HTTPS''],
      all_searchable_terms = [''HTTP'', ''HTTPS'', ''HTTPS'', ''HTTP'']\<rparr>"

text \<open>Two terms with the same cross-reference.\<close>

definition shared_corpus :: yaml where
  "shared_corpus =
     YDict [(''HTTP'', YDict [(''definitions'',
               YList [YDict [(''text'', YStr ''for pages''),
                             (''see_also'', YList [YStr ''protocol''])]])]),
            (''FTP'', YDict [(''definitions'',
               YList [YDict [(''text'', YStr ''for files''),
                             (''see_also'', YList [YStr ''protocol''])]])])]"

definition shared_store :: store where
  "shared_store =
     \<lparr>glossary =
        [(''HTTP'', YDict [(''definitions'',
            YList [YDict [(''text'', YStr ''for pages''),
                          (''see_also'', YList [YStr ''protocol''])]])]),
         (''FTP'', YDict [(''definitions'',
            YList [YDict [(''text'', YStr ''for files''),
                          (''see_also'', YList [YStr ''protocol''])]])])],
      normalized_terms = [''http'' \<mapsto> ''HTTP'', ''ftp'' \<mapsto> ''FTP'', ''protocol'' \<mapsto> ''FTP''],
      all_searchable_terms = [''HTTP'', ''protocol'', ''FTP'', ''protocol'']\<rparr>"

text \<open>A term with a cross-reference in its first definition and a second definition whose
  text is a number.\<close>

definition sibling_corpus :: yaml where
  "sibling_corpus =
     YDict [(''HTTP'', YDict [(''definitions'',
               YList [YDict [(''text'', YStr ''transfer protocol''),
                             (''see_also'', YList [YStr ''web protocol''])],
                      YDict [(''text'', YInt 5)]])])]"

definition sibling_store :: store where
  "sibling_store =
     \<lparr>glossary =
        [(''HTTP'', YDict [(''definitions'',
            YList [YDict [(''text'', YStr ''transfer protocol''),
                          (''see_also'', YList [YStr ''web protocol''])],
                   YDict [(''text'', YInt 5)]])])],
      normalized_terms = [''http'' \<mapsto> ''HTTP'', ''web protocol'' \<mapsto> ''HTTP''],
      all_searchable_terms = [''HTTP'', ''web protocol'']\<rparr>"

text \<open>One term whose name has ten characters; the query \<open>HTTPSer\<close> shares seven with it.\<close>

definition server_corpus :: yaml where
  "server_corpus =
     YDict [(''HTTPServer'',
       YDict [(''definitions'', YList [YDict [(''text'', YStr ''a web server'')]])])]"

definition server_store :: store where
  "server_store =
     \<lparr>glossary =
        [(''HTTPServer'',
          YDict [(''definitions'', YList [YDict [(''text'', YStr ''a web server'')]])])],
      normalized_terms = [''httpserver'' \<mapsto> ''HTTPServer''],
      all_searchable_terms = [''HTTPServer'']\<rparr>"

section \<open>Evaluation lemmas\<close>

lemma lower_HTTP: "lower ''HTTP'' = ''http''"
  by code_simp

lemma lower_FTP: "lower ''FTP'' = ''ftp''"
  by code_simp

lemma lower_web_protocol: "lower ''web protocol'' = ''web protocol''"
  by code_simp

lemma new_GlossaryManager_http:
  "new_GlossaryManager (Parsed http_corpus) = (Loaded 1, http_store)"
  by (simp add: new_GlossaryManager_def load_glossary_def http_corpus_def http_store_def
      build_search_indexes_def empty_store_def add_name_def lower_HTTP lower_web_protocol)

section \<open>Term Store: absent terms and failed loads\<close>

text \<open>
  Claim C10. For every string that is not a key of the glossary table,
  \<^verbatim>\<open>get_term_object\<close> does not fail: it returns the term object whose term is the
  queried string and whose list of definitions is empty.
\<close>

theorem get_term_object_absent:
  "t \<notin> fst ` set (glossary st) \<Longrightarrow>
   get_term_object str_of st t = Inr \<lparr>GlossaryTerm.term = t, GlossaryTerm.definitions = []\<rparr>"
proof -
  assume "t \<notin> fst ` set (glossary st)"
  then have "map_of (glossary st) t = None"
    by (simp add: map_of_eq_None_iff)
  then have "get_term_data st t = YDict []"
    by (simp add: get_term_data_def)
  then show ?thesis
    by (simp add: get_term_object_def)
qed

theorem get_term_object_absent_witness:
  "''FTP'' \<notin> fst ` set (glossary http_store) \<and>
   get_term_object example_str http_store ''FTP'' =
     Inr \<lparr>GlossaryTerm.term = ''FTP'', GlossaryTerm.definitions = []\<rparr>"
proof -
  have h: "''FTP'' \<notin> fst ` set (glossary http_store)"
    by (simp add: http_store_def)
  show ?thesis
    using h get_term_object_absent [OF h, of example_str] by simp
qed

text \<open>What an exception does to a load: whether \<^verbatim>\<open>open\<close> or \<^verbatim>\<open>yaml.safe_load\<close> raises,
  the document is not a mapping, or the index builder raises with some names already filed,
  the \<^verbatim>\<open>except\<close> branch prints the error and resets the three fields.\<close>

lemma load_glossary_exception_resets:
  "load_glossary (Unreadable e) st = (ErrorLoading e, empty_store)"
  "(\<And>d. y \<noteq> YDict d) \<Longrightarrow>
     load_glossary (Parsed y) st = (ErrorLoading AttributeError, empty_store)"
  "build_search_indexes (st\<lparr>glossary := d\<rparr>) = (Some e, st1) \<Longrightarrow>
     load_glossary (Parsed (YDict d)) st = (ErrorLoading e, empty_store)"
proof -
  show "load_glossary (Unreadable e) st = (ErrorLoading e, empty_store)"
    by (simp add: load_glossary_def)
  show "load_glossary (Parsed y) st = (ErrorLoading AttributeError, empty_store)"
    if "\<And>d. y \<noteq> YDict d"
    using that by (cases y) (auto simp: load_glossary_def)
  show "load_glossary (Parsed (YDict d)) st = (ErrorLoading e, empty_store)"
    if "build_search_indexes (st\<lparr>glossary := d\<rparr>) = (Some e, st1)"
    using that by (simp add: load_glossary_def)
qed

lemma load_glossary_half_built:
  "build_search_indexes
     (http_store\<lparr>glossary :=
        [(''HTTP'', YDict [(''definitions'', YList [YDict [(''text'', YStr ''a protocol'')]])]),
         (''FTP'', YNull)]\<rparr>)
     = (Some AttributeError,
        \<lparr>glossary =
           [(''HTTP'', YDict [(''definitions'', YList [YDict [(''text'', YStr ''a protocol'')]])]),
            (''FTP'', YNull)],
         normalized_terms = [''http'' \<mapsto> ''HTTP'', ''ftp'' \<mapsto> ''FTP''],
         all_searchable_terms = [''HTTP'', ''FTP'']\<rparr>)
   \<and> load_glossary (Parsed broken_corpus) http_store
     = (ErrorLoading AttributeError, empty_store)"
  by (simp add: load_glossary_def broken_corpus_def build_search_indexes_def add_name_def
      http_store_def lower_HTTP lower_FTP)

text \<open>
  Claim C3. Whenever loading fails, a missing source included, \<^verbatim>\<open>load_glossary\<close> leaves
  the term table, the normalized map and the searchable name list empty. The \<^verbatim>\<open>except\<close>
  branch does so (lemma \<open>load_glossary_exception_resets\<close>). The branch for a missing file
  does not: it prints that the manager is starting with an empty glossary and leaves the
  three fields as they were. At a manager that holds the glossary of the scenario, the
  load with the file missing returns the store unchanged, with its term and its two
  searchable names.
\<close>

theorem load_glossary_missing_keeps_store:
  "load_glossary Missing http_store = (NotFound, http_store)
   \<and> glossary http_store \<noteq> []
   \<and> all_searchable_terms http_store = [''HTTP'', ''web protocol'']
   \<and> normalized_terms http_store ''http'' = Some ''HTTP''"
  by (simp add: load_glossary_def http_store_def)

section \<open>Listing terms\<close>

lemma lower_take: "lower (take n s) = take n (lower s)"
  by (simp add: lower_def take_map)

lemma length_lower: "length (lower s) = length s"
  by (simp add: lower_def)

lemma startswith_lower_iff:
  "startswith (lower t) (lower p) \<longleftrightarrow> length p \<le> length t \<and> lower (take (length p) t) = lower p"
proof
  assume "startswith (lower t) (lower p)"
  then obtain r where r: "lower t = lower p @ r"
    by (auto simp: startswith_def prefix_def)
  then have "length (lower p) \<le> length (lower t)" by simp
  moreover from r have "take (length p) (lower t) = lower p"
    by (simp add: length_lower)
  ultimately show "length p \<le> length t \<and> lower (take (length p) t) = lower p"
    by (simp add: length_lower lower_take)
next
  assume a: "length p \<le> length t \<and> lower (take (length p) t) = lower p"
  then have "take (length p) (lower t) = lower p" by (simp add: lower_take)
  then have "lower t = lower p @ drop (length p) (lower t)"
    by (metis append_take_drop_id)
  then show "startswith (lower t) (lower p)"
    unfolding startswith_def prefix_def by blast
qed

lemma sort_cong_mset:
  fixes xs ys :: "string list"
  assumes "mset xs = mset ys" shows "sort xs = sort ys"
  by (rule properties_for_sort) (simp_all add: assms)

lemma lower_HTTPS: "lower ''HTTPS'' = ''https''"
  by code_simp

lemma lower_ftp: "lower ''ftp'' = ''ftp''"
  by code_simp

lemma lower_Ht: "lower ''Ht'' = ''ht''"
  by code_simp



text \<open>
  Claim C9. Whatever the state of the glossary, \<^verbatim>\<open>list_terms\<close> returns a list sorted
  ascending on the canonical forms. With a non-empty prefix it holds exactly the keys of the
  table whose first characters, as many as the prefix has, equal the prefix up to case;
  with no prefix it holds all the keys. The result depends on the keys only, not on the
  order the table holds them in.
\<close>

theorem list_terms_sorted_filter:
  "sorted (list_terms st prefix_opt)
   \<and> (p \<noteq> [] \<longrightarrow>
        mset (list_terms st (Some p)) =
          filter_mset (\<lambda>t. length p \<le> length t \<and> lower (take (length p) t) = lower p)
            (mset (map fst (glossary st))))
   \<and> mset (list_terms st None) = mset (map fst (glossary st))
   \<and> (mset (map fst (glossary st')) = mset (map fst (glossary st)) \<longrightarrow>
        list_terms st' prefix_opt = list_terms st prefix_opt)"
proof (intro conjI impI)
  show "sorted (list_terms st prefix_opt)"
    by (simp add: list_terms_def Let_def)
next
  assume "p \<noteq> []"
  then show "mset (list_terms st (Some p)) =
          filter_mset (\<lambda>t. length p \<le> length t \<and> lower (take (length p) t) = lower p)
            (mset (map fst (glossary st)))"
    by (simp add: list_terms_def Let_def startswith_lower_iff)
next
  show "mset (list_terms st None) = mset (map fst (glossary st))"
    by (simp add: list_terms_def Let_def)
next
  assume perm: "mset (map fst (glossary st')) = mset (map fst (glossary st))"
  have filt: "mset (filter P (map fst (glossary st'))) = mset (filter P (map fst (glossary st)))" for P
    by (simp only: mset_filter perm)
  show "list_terms st' prefix_opt = list_terms st prefix_opt"
  proof (cases prefix_opt)
    case None
    then show ?thesis
      using sort_cong_mset [OF perm] by (simp add: list_terms_def Let_def)
  next
    case (Some q)
    then show ?thesis
      using sort_cong_mset [OF perm] sort_cong_mset [OF filt]
      by (simp add: list_terms_def Let_def)
  qed
qed

theorem list_terms_sorted_filter_witness:
  "''Ht'' \<noteq> []
   \<and> list_terms three_store (Some ''Ht'') = [''HTTP'', ''HTTPS'']
   \<and> list_terms three_store None = [''HTTP'', ''HTTPS'', ''ftp'']
   \<and> mset (map fst (glossary (three_store\<lparr>glossary := rev (glossary three_store)\<rparr>)))
       = mset (map fst (glossary three_store))
   \<and> list_terms (three_store\<lparr>glossary := rev (glossary three_store)\<rparr>) (Some ''Ht'')
       = list_terms three_store (Some ''Ht'')"
proof -
  have a: "list_terms three_store (Some ''Ht'') = [''HTTP'', ''HTTPS'']"
    by (simp add: list_terms_def three_store_def startswith_def lower_Ht lower_HTTP lower_HTTPS lower_ftp)
  have b: "list_terms three_store None = [''HTTP'', ''HTTPS'', ''ftp'']"
    by (simp add: list_terms_def three_store_def)
  have c: "mset (map fst (glossary (three_store\<lparr>glossary := rev (glossary three_store)\<rparr>)))
       = mset (map fst (glossary three_store))"
    by (simp add: three_store_def)
  show ?thesis
    using a b c
      list_terms_sorted_filter [of three_store "Some ''Ht''" "''Ht''"
        "three_store\<lparr>glossary := rev (glossary three_store)\<rparr>"]
    by simp
qed

section \<open>Float division\<close>

lemma round_half_even_of_int: "round_half_even (of_int n) = n"
  by (simp add: round_half_even_def)

lemma round_half_even_bounds:
  "\<lfloor>y\<rfloor> \<le> round_half_even y" "round_half_even y \<le> \<lfloor>y\<rfloor> + 1"
  by (simp_all add: round_half_even_def Let_def)

lemma round_half_even_mono:
  assumes "y \<le> y'" shows "round_half_even y \<le> round_half_even y'"
proof (cases "\<lfloor>y\<rfloor> = \<lfloor>y'\<rfloor>")
  case True
  then have "y - of_int \<lfloor>y\<rfloor> \<le> y' - of_int \<lfloor>y'\<rfloor>"
    using assms by simp
  with True show ?thesis
    by (simp add: round_half_even_def Let_def)
next
  case False
  with assms have "\<lfloor>y\<rfloor> < \<lfloor>y'\<rfloor>"
    by (simp add: floor_mono order.not_eq_order_implies_strict)
  then have "\<lfloor>y\<rfloor> + 1 \<le> \<lfloor>y'\<rfloor>" by simp
  with round_half_even_bounds(2) [of y] round_half_even_bounds(1) [of y'] show ?thesis
    by linarith
qed

lemma round_half_even_ge: "of_int n \<le> y \<Longrightarrow> n \<le> round_half_even y"
  using round_half_even_mono [of "of_int n" y] by (simp add: round_half_even_of_int)

lemma round_half_even_le: "y \<le> of_int n \<Longrightarrow> round_half_even y \<le> n"
  using round_half_even_mono [of y "of_int n"] by (simp add: round_half_even_of_int)

lemma two_powr_int: "(2::real) powr of_int k = 2 powi k"
  by (rule powr_real_of_int') simp_all

lemma floor_log2_bounds:
  assumes "0 < x"
  shows "2 powi \<lfloor>log 2 x\<rfloor> \<le> x" "x < 2 powi (\<lfloor>log 2 x\<rfloor> + 1)"
proof -
  have "2 powr of_int \<lfloor>log 2 x\<rfloor> \<le> x \<and> x < 2 powr of_int (\<lfloor>log 2 x\<rfloor> + 1)"
    using floor_log_eq_powr_iff [of x 2 "\<lfloor>log 2 x\<rfloor>"] assms by simp
  then show "2 powi \<lfloor>log 2 x\<rfloor> \<le> x" "x < 2 powi (\<lfloor>log 2 x\<rfloor> + 1)"
    by (simp_all only: two_powr_int)
qed

lemma floor_log2_eq:
  assumes "2 powi k \<le> x" "x < 2 powi (k + 1)"
  shows "\<lfloor>log 2 x\<rfloor> = k"
proof -
  have "0 < (2::real) powi k" by simp
  with assms(1) have pos: "0 < x" by linarith
  have "2 powr of_int k \<le> x \<and> x < 2 powr (of_int k + 1)"
    using assms two_powr_int [of k] two_powr_int [of "k + 1"] by simp
  then show ?thesis
    using floor_log_eq_powr_iff [of x 2 k] pos by simp
qed

lemma double_exponent_upper:
  assumes "0 < x" shows "x < 2 powi (double_exponent x + 53)"
proof -
  have "\<lfloor>log 2 x\<rfloor> + 1 \<le> double_exponent x + 53"
    using assms by (simp add: double_exponent_def)
  then have "(2::real) powi (\<lfloor>log 2 x\<rfloor> + 1) \<le> 2 powi (double_exponent x + 53)"
    by (intro power_int_increasing) simp_all
  with floor_log2_bounds(2) [OF assms] show ?thesis by linarith
qed

lemma double_exponent_lower:
  assumes "0 < x" "- 1074 < double_exponent x"
  shows "2 powi (double_exponent x + 52) \<le> x"
proof -
  from assms have "double_exponent x + 52 = \<lfloor>log 2 x\<rfloor>"
    by (simp add: double_exponent_def max_def split: if_splits)
  with floor_log2_bounds(1) [OF assms(1)] show ?thesis by simp
qed

lemma double_exponent_mono:
  assumes "0 < x" "x \<le> x'" shows "double_exponent x \<le> double_exponent x'"
proof -
  from assms have "log 2 x \<le> log 2 x'" by simp
  then have "\<lfloor>log 2 x\<rfloor> \<le> \<lfloor>log 2 x'\<rfloor>" by (rule floor_mono)
  with assms show ?thesis by (simp add: double_exponent_def)
qed

lemma round_double_nonneg:
  assumes "0 \<le> x" shows "0 \<le> round_double x"
proof (cases "x = 0")
  case True
  then show ?thesis by (simp add: round_double_def)
next
  case False
  with assms have "(0::real) \<le> x / 2 powi double_exponent x" by simp
  then have "0 \<le> round_half_even (x / 2 powi double_exponent x)"
    using round_half_even_ge [of 0] by simp
  with False show ?thesis by (simp add: round_double_def)
qed

lemma round_double_mono_pos:
  assumes "0 < x" "x \<le> x'" shows "round_double x \<le> round_double x'"
proof -
  let ?e = "double_exponent x" and ?e' = "double_exponent x'"
  from assms have pos': "0 < x'" by simp
  have rx: "round_double x = of_int (round_half_even (x / 2 powi ?e)) * 2 powi ?e"
    and rx': "round_double x' = of_int (round_half_even (x' / 2 powi ?e')) * 2 powi ?e'"
    using assms pos' by (simp_all add: round_double_def)
  have le: "?e \<le> ?e'" using assms by (rule double_exponent_mono)
  show ?thesis
  proof (cases "?e = ?e'")
    case True
    have "x / 2 powi ?e \<le> x' / 2 powi ?e"
      using assms(2) by (simp add: divide_right_mono)
    then have "round_half_even (x / 2 powi ?e) \<le> round_half_even (x' / 2 powi ?e)"
      by (rule round_half_even_mono)
    then have "of_int (round_half_even (x / 2 powi ?e)) * (2::real) powi ?e
        \<le> of_int (round_half_even (x' / 2 powi ?e)) * 2 powi ?e"
      by (intro mult_right_mono) simp_all
    with rx rx' True show ?thesis by simp
  next
    case False
    have "- 1074 \<le> ?e"
      by (simp add: double_exponent_def)
    with le False have lt: "?e + 1 \<le> ?e'" "- 1074 < ?e'"
      by linarith+
    have "x / 2 powi ?e \<le> 2 powi 53"
    proof -
      have "x < 2 powi (?e + 53)" using assms(1) by (rule double_exponent_upper)
      also have "\<dots> = 2 powi 53 * 2 powi ?e"
        by (simp add: power_int_add mult.commute)
      finally show ?thesis by (simp add: pos_divide_le_eq)
    qed
    then have "x / 2 powi ?e \<le> of_int (2 ^ 53)" by simp
    then have "round_half_even (x / 2 powi ?e) \<le> 2 ^ 53"
      by (rule round_half_even_le)
    then have "of_int (round_half_even (x / 2 powi ?e)) * (2::real) powi ?e
        \<le> of_int (2 ^ 53) * 2 powi ?e"
      by (intro mult_right_mono) simp_all
    also have "\<dots> = 2 powi (?e + 53)"
      by (simp add: power_int_add mult.commute)
    also have "\<dots> \<le> 2 powi (?e' + 52)"
      using lt(1) by (intro power_int_increasing) simp_all
    finally have up: "round_double x \<le> 2 powi (?e' + 52)"
      by (simp add: rx)
    have "2 powi 52 \<le> x' / 2 powi ?e'"
    proof -
      have "2 powi 52 * 2 powi ?e' = (2::real) powi (?e' + 52)"
        by (simp add: power_int_add mult.commute)
      also have "\<dots> \<le> x'" using pos' lt(2) by (rule double_exponent_lower)
      finally show ?thesis by (simp add: pos_le_divide_eq)
    qed
    then have "of_int (2 ^ 52) \<le> x' / 2 powi ?e'" by simp
    then have r52: "2 ^ 52 \<le> round_half_even (x' / 2 powi ?e')"
      by (rule round_half_even_ge)
    have "2 powi (?e' + 52) = of_int (2 ^ 52) * (2::real) powi ?e'"
      by (simp add: power_int_add mult.commute)
    also have "\<dots> \<le> of_int (round_half_even (x' / 2 powi ?e')) * 2 powi ?e'"
      using r52 by (intro mult_right_mono) (simp_all only: of_int_le_iff zero_le_power_int zero_le_numeral)
    also have "\<dots> = round_double x'"
      by (simp only: rx')
    finally have "2 powi (?e' + 52) \<le> round_double x'" .
    with up show ?thesis by linarith
  qed
qed

lemma round_double_mono:
  assumes "0 \<le> x" "x \<le> x'" shows "round_double x \<le> round_double x'"
proof (cases "x = 0")
  case True
  with assms round_double_nonneg [of x'] show ?thesis
    by (simp add: round_double_def)
next
  case False
  with assms have "0 < x" by simp
  then show ?thesis using assms(2) by (rule round_double_mono_pos)
qed

lemma round_double_normal:
  assumes "2 powi k \<le> x" "x < 2 powi (k + 1)" "- 1022 \<le> k"
  shows "round_double x = of_int (round_half_even (x / 2 powi (k - 52))) * 2 powi (k - 52)"
proof -
  have "0 < (2::real) powi k" by simp
  with assms(1) have pos: "0 < x" by linarith
  have "\<lfloor>log 2 \<bar>x\<bar>\<rfloor> = k"
    using floor_log2_eq [OF assms(1,2)] pos by simp
  with assms(3) have "double_exponent x = k - 52"
    by (simp add: double_exponent_def)
  with pos show ?thesis by (simp add: round_double_def)
qed

lemma round_double_1: "round_double 1 = 1"
proof -
  have "round_double 1 = of_int (round_half_even (1 / 2 powi (0 - 52))) * 2 powi (0 - 52)"
    by (rule round_double_normal) simp_all
  also have "(1::real) / 2 powi (0 - 52) = of_int (2 ^ 52)"
    by (simp add: power_int_minus)
  also have "of_int (round_half_even (of_int (2 ^ 52))) * (2::real) powi (0 - 52) = 1"
    by (simp only: round_half_even_of_int) (simp add: power_int_minus)
  finally show ?thesis .
qed

lemma float_div_70: "float_div 70 100 = 3152519739159347 / 4503599627370496"
proof -
  have "round_double (7 / 10) =
      of_int (round_half_even ((7 / 10) / 2 powi (- 1 - 52))) * 2 powi (- 1 - 52)"
    by (rule round_double_normal) simp_all
  also have "(7 / 10 :: real) / 2 powi (- 1 - 52) = 31525197391593472 / 5"
    by (simp add: power_int_minus)
  also have "round_half_even (31525197391593472 / 5) = 6305039478318694"
    by (simp add: round_half_even_def Let_def)
  finally show ?thesis
    by (simp add: float_div_def power_int_minus)
qed

lemma float_div_75: "float_div 75 100 = 3 / 4"
proof -
  have "round_double (3 / 4) =
      of_int (round_half_even ((3 / 4) / 2 powi (- 1 - 52))) * 2 powi (- 1 - 52)"
    by (rule round_double_normal) simp_all
  also have "(3 / 4 :: real) / 2 powi (- 1 - 52) = of_int 6755399441055744"
    by (simp add: power_int_minus)
  finally show ?thesis
    by (simp only: round_half_even_of_int) (simp add: float_div_def power_int_minus)
qed

lemma float_div_50: "float_div 50 100 = 1 / 2"
proof -
  have "round_double (1 / 2) =
      of_int (round_half_even ((1 / 2) / 2 powi (- 1 - 52))) * 2 powi (- 1 - 52)"
    by (rule round_double_normal) simp_all
  also have "(1 / 2 :: real) / 2 powi (- 1 - 52) = of_int 4503599627370496"
    by (simp add: power_int_minus)
  finally show ?thesis
    by (simp only: round_half_even_of_int) (simp add: float_div_def power_int_minus)
qed

lemma float_div_60: "float_div 60 100 = 5404319552844595 / 9007199254740992"
proof -
  have "round_double (3 / 5) =
      of_int (round_half_even ((3 / 5) / 2 powi (- 1 - 52))) * 2 powi (- 1 - 52)"
    by (rule round_double_normal) simp_all
  also have "(3 / 5 :: real) / 2 powi (- 1 - 52) = 27021597764222976 / 5"
    by (simp add: power_int_minus)
  also have "round_half_even (27021597764222976 / 5) = 5404319552844595"
    by (simp add: round_half_even_def Let_def)
  finally show ?thesis
    by (simp add: float_div_def power_int_minus)
qed

section \<open>Fuzzy search\<close>

subsection \<open>Sorting and extraction\<close>

lemma mset_sort_reverse: "mset (sort_reverse key xs) = mset xs"
  by (simp add: sort_reverse_def)

lemma set_sort_reverse: "set (sort_reverse key xs) = set xs"
  by (simp add: sort_reverse_def)

lemma length_sort_reverse: "length (sort_reverse key xs) = length xs"
  by (simp add: sort_reverse_def)

lemma sorted_sort_reverse: "sorted_wrt (\<lambda>a b. key b \<le> key a) (sort_reverse key xs)"
proof -
  have "sorted (map key (sort_key key (rev xs)))"
    by (rule sorted_sort_key)
  then have "sorted_wrt (\<lambda>a b. key a \<le> key b) (sort_key key (rev xs))"
    by (simp add: sorted_map)
  then show ?thesis
    by (simp add: sort_reverse_def sorted_wrt_rev)
qed

lemma sort_reverse_stable:
  "filter (\<lambda>y. key y = k) (sort_reverse key xs) = filter (\<lambda>y. key y = k) xs"
proof -
  have "filter (\<lambda>y. key y = k) (sort_reverse key xs)
        = rev (filter (\<lambda>y. key y = k) (sort_key key (rev xs)))"
    by (simp add: sort_reverse_def rev_filter)
  also have "\<dots> = rev (filter (\<lambda>y. key y = k) (rev xs))"
    by (simp only: sort_key_stable)
  also have "\<dots> = filter (\<lambda>y. key y = k) xs"
    by (simp add: rev_filter)
  finally show ?thesis .
qed

lemma distinct_map_sort_reverse:
  "distinct (map f (sort_reverse key xs)) = distinct (map f xs)"
proof -
  have "mset (map f (sort_reverse key xs)) = mset (map f xs)"
    by (simp add: mset_sort_reverse)
  then show ?thesis
    by (rule mset_eq_imp_distinct_iff)
qed

lemma process_extract_length: "length (process_extract scorer q choices limit cutoff) \<le> limit"
  by (simp add: process_extract_def)

lemma process_extract_member:
  assumes "m \<in> set (process_extract scorer q choices limit cutoff)"
  shows "fst m \<in> set choices \<and> fst (snd m) = scorer q (fst m) \<and> cutoff \<le> fst (snd m)"
proof -
  from assms have "m \<in> set (sort_reverse (\<lambda>m. fst (snd m))
          (filter (\<lambda>m. cutoff \<le> fst (snd m))
             (map (\<lambda>(i, choice). (choice, scorer q choice, i))
                (zip [0..<length choices] choices))))"
    unfolding process_extract_def by (rule in_set_takeD)
  then have "m \<in> set (map (\<lambda>(i, choice). (choice, scorer q choice, i))
                (zip [0..<length choices] choices))" and c: "cutoff \<le> fst (snd m)"
    by (simp_all add: set_sort_reverse)
  then obtain i c' where "(i, c') \<in> set (zip [0..<length choices] choices)"
    and m: "m = (c', scorer q c', i)"
    by auto
  then have "c' \<in> set choices"
    by (meson set_zip_rightD)
  with m c show ?thesis by simp
qed

subsection \<open>The loop over the matches\<close>

text \<open>What the loop adds to \<open>results\<close>.\<close>

lemma collect_matches_inv:
  assumes "collect_matches str_of st ms seen results = Inr out"
  shows "\<exists>new. out = results @ new
     \<and> distinct (map TermResult.term new)
     \<and> (\<forall>r \<in> set new. TermResult.term r \<notin> seen \<and> match_type r = ''fuzzy''
          \<and> term_exists st (TermResult.term r)
          \<and> (\<exists>pre m post. ms = pre @ m # post
                \<and> TermResult.term r = get_original_term st (fst m)
                \<and> confidence r = float_div (fst (snd m)) 100
                \<and> (\<forall>m' \<in> set pre. get_original_term st (fst m') \<noteq> TermResult.term r)))"
  using assms
proof (induction ms arbitrary: seen results)
  case Nil
  then show ?case by simp
next
  case (Cons m rest)
  let ?o = "get_original_term st (fst m)"
  show ?case
  proof (cases "?o \<in> seen")
    case True
    with Cons.prems have "collect_matches str_of st rest seen results = Inr out"
      by (simp add: Let_def)
    from Cons.IH [OF this] obtain new where new: "out = results @ new"
      "distinct (map TermResult.term new)"
      "\<forall>r \<in> set new. TermResult.term r \<notin> seen \<and> match_type r = ''fuzzy''
          \<and> term_exists st (TermResult.term r)
          \<and> (\<exists>pre m post. rest = pre @ m # post
                \<and> TermResult.term r = get_original_term st (fst m)
                \<and> confidence r = float_div (fst (snd m)) 100
                \<and> (\<forall>m' \<in> set pre. get_original_term st (fst m') \<noteq> TermResult.term r))"
      by blast
    have "\<forall>r \<in> set new. TermResult.term r \<notin> seen \<and> match_type r = ''fuzzy''
          \<and> term_exists st (TermResult.term r)
          \<and> (\<exists>pre m' post. m # rest = pre @ m' # post
                \<and> TermResult.term r = get_original_term st (fst m')
                \<and> confidence r = float_div (fst (snd m')) 100
                \<and> (\<forall>m' \<in> set pre. get_original_term st (fst m') \<noteq> TermResult.term r))"
    proof
      fix r assume r: "r \<in> set new"
      with new(3) obtain pre m' post where d: "rest = pre @ m' # post"
        "TermResult.term r = get_original_term st (fst m')"
        "confidence r = float_div (fst (snd m')) 100"
        "\<forall>x \<in> set pre. get_original_term st (fst x) \<noteq> TermResult.term r"
        and ns: "TermResult.term r \<notin> seen" and f: "match_type r = ''fuzzy''"
        and ex: "term_exists st (TermResult.term r)"
        by blast
      from ns True have "?o \<noteq> TermResult.term r" by auto
      with d have "m # rest = (m # pre) @ m' # post \<and>
          TermResult.term r = get_original_term st (fst m') \<and>
          confidence r = float_div (fst (snd m')) 100 \<and>
          (\<forall>x \<in> set (m # pre). get_original_term st (fst x) \<noteq> TermResult.term r)"
        by simp
      with ns f ex show "TermResult.term r \<notin> seen \<and> match_type r = ''fuzzy''
          \<and> term_exists st (TermResult.term r)
          \<and> (\<exists>pre m' post. m # rest = pre @ m' # post
                \<and> TermResult.term r = get_original_term st (fst m')
                \<and> confidence r = float_div (fst (snd m')) 100
                \<and> (\<forall>m' \<in> set pre. get_original_term st (fst m') \<noteq> TermResult.term r))"
        by blast
    qed
    with new(1,2) show ?thesis by blast
  next
    case False
    define added where "added =
      (if term_exists st ?o then
         (case get_term_object str_of st ?o of
            Inr term_obj \<Rightarrow> [\<lparr>TermResult.term = ?o,
                      definitions = GlossaryTerm.definitions term_obj,
                      confidence = float_div (fst (snd m)) 100,
                      match_type = ''fuzzy''\<rparr>]
          | Inl e \<Rightarrow> [])
       else [])"
    from Cons.prems False
    have rec: "collect_matches str_of st rest (insert ?o seen) (results @ added) = Inr out"
      by (auto simp: Let_def added_def split: if_splits sum.splits)
    have added_cases: "added = [] \<or> (\<exists>r0. added = [r0] \<and> TermResult.term r0 = ?o
        \<and> confidence r0 = float_div (fst (snd m)) 100 \<and> match_type r0 = ''fuzzy'' \<and> term_exists st ?o)"
      by (auto simp: added_def split: sum.splits)
    from Cons.IH [OF rec] obtain new where new: "out = (results @ added) @ new"
      "distinct (map TermResult.term new)"
      "\<forall>r \<in> set new. TermResult.term r \<notin> insert ?o seen \<and> match_type r = ''fuzzy''
          \<and> term_exists st (TermResult.term r)
          \<and> (\<exists>pre m post. rest = pre @ m # post
                \<and> TermResult.term r = get_original_term st (fst m)
                \<and> confidence r = float_div (fst (snd m)) 100
                \<and> (\<forall>m' \<in> set pre. get_original_term st (fst m') \<noteq> TermResult.term r))"
      by blast
    have tail: "\<forall>r \<in> set new. TermResult.term r \<notin> seen \<and> match_type r = ''fuzzy''
          \<and> term_exists st (TermResult.term r)
          \<and> (\<exists>pre m' post. m # rest = pre @ m' # post
                \<and> TermResult.term r = get_original_term st (fst m')
                \<and> confidence r = float_div (fst (snd m')) 100
                \<and> (\<forall>m' \<in> set pre. get_original_term st (fst m') \<noteq> TermResult.term r))"
    proof
      fix r assume r: "r \<in> set new"
      with new(3) obtain pre m' post where d: "rest = pre @ m' # post"
        "TermResult.term r = get_original_term st (fst m')"
        "confidence r = float_div (fst (snd m')) 100"
        "\<forall>x \<in> set pre. get_original_term st (fst x) \<noteq> TermResult.term r"
        and ns: "TermResult.term r \<notin> insert ?o seen" and f: "match_type r = ''fuzzy''"
        and ex: "term_exists st (TermResult.term r)"
        by blast
      from ns have "?o \<noteq> TermResult.term r" by auto
      with d have "m # rest = (m # pre) @ m' # post \<and>
          TermResult.term r = get_original_term st (fst m') \<and>
          confidence r = float_div (fst (snd m')) 100 \<and>
          (\<forall>x \<in> set (m # pre). get_original_term st (fst x) \<noteq> TermResult.term r)"
        by simp
      with ns f ex show "TermResult.term r \<notin> seen \<and> match_type r = ''fuzzy''
          \<and> term_exists st (TermResult.term r)
          \<and> (\<exists>pre m' post. m # rest = pre @ m' # post
                \<and> TermResult.term r = get_original_term st (fst m')
                \<and> confidence r = float_div (fst (snd m')) 100
                \<and> (\<forall>m' \<in> set pre. get_original_term st (fst m') \<noteq> TermResult.term r))"
        by blast
    qed
    from added_cases show ?thesis
    proof
      assume "added = []"
      with new(1,2) tail show ?thesis by auto
    next
      assume "\<exists>r0. added = [r0] \<and> TermResult.term r0 = ?o
        \<and> confidence r0 = float_div (fst (snd m)) 100 \<and> match_type r0 = ''fuzzy'' \<and> term_exists st ?o"
      then obtain r0 where r0: "added = [r0]" "TermResult.term r0 = ?o"
        "confidence r0 = float_div (fst (snd m)) 100" "match_type r0 = ''fuzzy''" "term_exists st ?o"
        by blast
      have first: "\<exists>pre m' post. m # rest = pre @ m' # post
                \<and> TermResult.term r0 = get_original_term st (fst m')
                \<and> confidence r0 = float_div (fst (snd m')) 100
                \<and> (\<forall>m' \<in> set pre. get_original_term st (fst m') \<noteq> TermResult.term r0)"
        using r0 by (intro exI [of _ "[]"] exI [of _ m] exI [of _ rest]) simp
      have notin: "TermResult.term r0 \<notin> TermResult.term ` set new"
        using new(3) r0(2) by auto
      have "out = results @ (r0 # new)"
        using new(1) r0(1) by simp
      moreover have "distinct (map TermResult.term (r0 # new))"
        using new(2) notin by simp
      moreover have "\<forall>r \<in> set (r0 # new). TermResult.term r \<notin> seen \<and> match_type r = ''fuzzy''
          \<and> term_exists st (TermResult.term r)
          \<and> (\<exists>pre m' post. m # rest = pre @ m' # post
                \<and> TermResult.term r = get_original_term st (fst m')
                \<and> confidence r = float_div (fst (snd m')) 100
                \<and> (\<forall>m' \<in> set pre. get_original_term st (fst m') \<noteq> TermResult.term r))"
        using tail first r0 False by simp
      ultimately show ?thesis by blast
    qed
  qed
qed

subsection \<open>The example store\<close>

lemma lower_HTML: "lower ''HTML'' = ''html''"
  by code_simp

lemma lower_HTTPD: "lower ''HTTPD'' = ''httpd''"
  by code_simp

lemma lower_HTTP2: "lower ''HTTP2'' = ''http2''"
  by code_simp

lemma new_GlossaryManager_web:
  "new_GlossaryManager (Parsed web_corpus) = (Loaded 4, web_store)"
  by (simp add: new_GlossaryManager_def load_glossary_def web_corpus_def web_store_def
      build_search_indexes_def empty_store_def add_name_def lower_HTTP lower_web_protocol
      lower_HTML lower_HTTPS lower_HTTPD lower_HTTP2)

lemma extract_web:
  "process_extract prefix_scorer ''HTTO'' (all_searchable_terms web_store) 10 50 =
     [(''HTTP'', 75, 1), (''HTTPS'', 60, 3), (''HTTPD'', 60, 4), (''HTTP2'', 60, 5), (''HTML'', 50, 0)]"
  by (simp add: process_extract_def web_store_def prefix_scorer_def sort_reverse_def upt_rec)

lemma scoring_pass_web:
  "scoring_pass example_str prefix_scorer web_store ''HTTO'' 50 = Inr web_results"
  unfolding scoring_pass_def
  apply (simp add: extract_web)
  apply (simp add: web_store_def web_results_def get_original_term_def term_exists_def
      get_term_object_def get_term_data_def new_Definition_def example_str_def float_div_75 float_div_60 float_div_50
      lower_HTTP lower_HTML lower_HTTPS lower_HTTPD lower_HTTP2)
  done

lemma search_web:
  "FuzzySearch_search example_str prefix_scorer web_store ''HTTO'' 50 = Inr web_results"
proof -
  have "all_searchable_terms web_store \<noteq> []" by (simp add: web_store_def)
  moreover have "sort_reverse confidence web_results = web_results"
    by (simp add: sort_reverse_def web_results_def)
  ultimately show ?thesis
    by (simp add: FuzzySearch_search_def scoring_pass_web)
qed

subsection \<open>Properties of the search\<close>

lemma collect_matches_length:
  "collect_matches str_of st ms seen results = Inr out \<Longrightarrow>
   length out \<le> length results + length ms"
proof (induction ms arbitrary: seen results)
  case Nil
  then show ?case by simp
next
  case (Cons m rest)
  then show ?case
    by (fastforce simp: Let_def split: if_splits sum.splits)
qed

lemma scoring_pass_empty:
  "all_searchable_terms st = [] \<Longrightarrow> scoring_pass str_of scorer st query threshold = Inr []"
  by (simp add: scoring_pass_def process_extract_def sort_reverse_def)

lemma search_from_pass:
  assumes "FuzzySearch_search str_of scorer st query threshold = Inr rs"
  shows "\<exists>pass. scoring_pass str_of scorer st query threshold = Inr pass
           \<and> rs = sort_reverse confidence pass"
proof (cases "all_searchable_terms st = []")
  case True
  with assms have "rs = []" by (simp add: FuzzySearch_search_def)
  with True show ?thesis
    by (simp add: scoring_pass_empty sort_reverse_def)
next
  case False
  with assms show ?thesis
    by (auto simp: FuzzySearch_search_def split: sum.splits)
qed

text \<open>
  Claim C4. For every query and threshold, the list \<^verbatim>\<open>FuzzySearch.search\<close> returns has
  no two results with the same term. Each result stems from the first extracted match whose
  name the normalized map resolves to that term: no earlier match resolves to it, and the
  confidence is the float quotient of that match's score by 100.
\<close>

theorem fuzzy_search_one_per_term:
  assumes "FuzzySearch_search str_of scorer st query threshold = Inr rs"
  shows "distinct (map TermResult.term rs)
     \<and> (\<forall>r \<in> set rs. \<exists>pre m post.
           process_extract scorer query (all_searchable_terms st) 10 (of_int threshold)
             = pre @ m # post
           \<and> TermResult.term r = get_original_term st (fst m)
           \<and> confidence r = float_div (fst (snd m)) 100
           \<and> (\<forall>m' \<in> set pre. get_original_term st (fst m') \<noteq> TermResult.term r))"
proof -
  from search_from_pass [OF assms] obtain pass
    where pass: "scoring_pass str_of scorer st query threshold = Inr pass"
      and rs: "rs = sort_reverse confidence pass"
    by blast
  from pass have "collect_matches str_of st
       (process_extract scorer query (all_searchable_terms st) 10 (of_int threshold)) {} [] = Inr pass"
    by (simp add: scoring_pass_def)
  from collect_matches_inv [OF this]
  have d: "distinct (map TermResult.term pass)"
    and f: "\<forall>r \<in> set pass. \<exists>pre m post.
           process_extract scorer query (all_searchable_terms st) 10 (of_int threshold)
             = pre @ m # post
           \<and> TermResult.term r = get_original_term st (fst m)
           \<and> confidence r = float_div (fst (snd m)) 100
           \<and> (\<forall>m' \<in> set pre. get_original_term st (fst m') \<noteq> TermResult.term r)"
    by auto
  from d have "distinct (map TermResult.term rs)"
    by (simp add: rs distinct_map_sort_reverse)
  moreover from f have "\<forall>r \<in> set rs. \<exists>pre m post.
           process_extract scorer query (all_searchable_terms st) 10 (of_int threshold)
             = pre @ m # post
           \<and> TermResult.term r = get_original_term st (fst m)
           \<and> confidence r = float_div (fst (snd m)) 100
           \<and> (\<forall>m' \<in> set pre. get_original_term st (fst m') \<noteq> TermResult.term r)"
    by (simp add: rs set_sort_reverse)
  ultimately show ?thesis by blast
qed

theorem fuzzy_search_one_per_term_witness:
  "FuzzySearch_search example_str prefix_scorer web_store ''HTTO'' 50 = Inr web_results
   \<and> map fst (process_extract prefix_scorer ''HTTO'' (all_searchable_terms web_store) 10 50)
       = [''HTTP'', ''HTTPS'', ''HTTPD'', ''HTTP2'', ''HTML'']
   \<and> get_original_term web_store ''HTTPS'' = ''HTTP''
   \<and> map TermResult.term web_results = [''HTTP'', ''HTTPD'', ''HTTP2'', ''HTML'']
   \<and> distinct (map TermResult.term web_results)"
proof -
  have a: "map fst (process_extract prefix_scorer ''HTTO'' (all_searchable_terms web_store) 10 50)
       = [''HTTP'', ''HTTPS'', ''HTTPD'', ''HTTP2'', ''HTML'']"
    by (simp add: extract_web)
  have b: "get_original_term web_store ''HTTPS'' = ''HTTP''"
    by (simp add: get_original_term_def web_store_def lower_HTTPS)
  have c: "map TermResult.term web_results = [''HTTP'', ''HTTPD'', ''HTTP2'', ''HTML'']"
    by (simp add: web_results_def)
  show ?thesis
    using a b c search_web fuzzy_search_one_per_term [OF search_web] by simp
qed

text \<open>
  Claim C5. For every query and threshold, the list \<^verbatim>\<open>FuzzySearch.search\<close> returns is
  sorted by non-increasing confidence; it is a rearrangement of the list the scoring pass
  produced, and the results of any one confidence stand in the order they had there.
\<close>

theorem fuzzy_search_sorted_stable:
  assumes "FuzzySearch_search str_of scorer st query threshold = Inr rs"
  shows "sorted_wrt (\<lambda>a b. confidence b \<le> confidence a) rs
     \<and> (\<exists>pass. scoring_pass str_of scorer st query threshold = Inr pass
           \<and> mset rs = mset pass
           \<and> (\<forall>c. filter (\<lambda>r. confidence r = c) rs = filter (\<lambda>r. confidence r = c) pass))"
proof -
  from search_from_pass [OF assms] obtain pass
    where pass: "scoring_pass str_of scorer st query threshold = Inr pass"
      and rs: "rs = sort_reverse confidence pass"
    by blast
  have "sorted_wrt (\<lambda>a b. confidence b \<le> confidence a) rs"
    unfolding rs by (rule sorted_sort_reverse)
  moreover have "mset rs = mset pass"
    by (simp add: rs mset_sort_reverse)
  moreover have "\<forall>c. filter (\<lambda>r. confidence r = c) rs = filter (\<lambda>r. confidence r = c) pass"
    by (simp add: rs sort_reverse_stable)
  ultimately show ?thesis
    using pass by blast
qed

theorem fuzzy_search_sorted_stable_witness:
  "FuzzySearch_search example_str prefix_scorer web_store ''HTTO'' 50 = Inr web_results
   \<and> scoring_pass example_str prefix_scorer web_store ''HTTO'' 50 = Inr web_results
   \<and> map confidence web_results = [3 / 4, 5404319552844595 / 9007199254740992, 5404319552844595 / 9007199254740992, 1 / 2]
   \<and> sorted_wrt (\<lambda>a b. confidence b \<le> confidence a) web_results"
proof -
  have c: "map confidence web_results = [3 / 4, 5404319552844595 / 9007199254740992, 5404319552844595 / 9007199254740992, 1 / 2]"
    by (simp add: web_results_def)
  show ?thesis
    using c search_web scoring_pass_web fuzzy_search_sorted_stable [OF search_web] by simp
qed

lemma lower_HTTPServer: "lower ''HTTPServer'' = ''httpserver''"
  by code_simp

lemma new_GlossaryManager_server:
  "new_GlossaryManager (Parsed server_corpus) = (Loaded 1, server_store)"
  by (simp add: new_GlossaryManager_def load_glossary_def server_corpus_def server_store_def
      build_search_indexes_def empty_store_def add_name_def lower_HTTPServer)

lemma search_server:
  "FuzzySearch_search example_str prefix_scorer server_store ''HTTPSer'' 70 =
     Inr [\<lparr>term = ''HTTPServer'', definitions = [\<lparr>text = ''a web server'', see_also = []\<rparr>],
           confidence = 3152519739159347 / 4503599627370496, match_type = ''fuzzy''\<rparr>]"
proof -
  have ex: "process_extract prefix_scorer ''HTTPSer'' (all_searchable_terms server_store) 10 70
            = [(''HTTPServer'', 70, 0)]"
    by (simp add: process_extract_def server_store_def prefix_scorer_def sort_reverse_def upt_rec)
  have orig: "get_original_term server_store ''HTTPServer'' = ''HTTPServer''"
    "term_exists server_store ''HTTPServer''"
    by (simp_all add: get_original_term_def term_exists_def server_store_def lower_HTTPServer)
  have obj: "get_term_object example_str server_store ''HTTPServer'' =
      Inr \<lparr>GlossaryTerm.term = ''HTTPServer'',
           GlossaryTerm.definitions = [\<lparr>text = ''a web server'', see_also = []\<rparr>]\<rparr>"
    by (simp add: get_term_object_def get_term_data_def server_store_def new_Definition_def)
  have "scoring_pass example_str prefix_scorer server_store ''HTTPSer'' 70 =
     Inr [\<lparr>term = ''HTTPServer'', definitions = [\<lparr>text = ''a web server'', see_also = []\<rparr>],
           confidence = 3152519739159347 / 4503599627370496, match_type = ''fuzzy''\<rparr>]"
    using orig ex obj by (simp add: scoring_pass_def float_div_70)
  moreover have "all_searchable_terms server_store \<noteq> []"
    by (simp add: server_store_def)
  ultimately show ?thesis
    by (simp add: FuzzySearch_search_def sort_reverse_def)
qed

text \<open>
  Claim C6, as stated: every result has confidence equal to its match score divided by
  100, hence at least the threshold divided by 100. The confidence is the float quotient
  \<^verbatim>\<open>score / 100.0\<close>, and a double below the exact quotient where that is not a double:
  at threshold 70 a match scoring exactly 70 is returned with the confidence
  3152519739159347 / 4503599627370496, which is less than 70 / 100.
\<close>

theorem fuzzy_search_confidence_counterexample:
  "new_GlossaryManager (Parsed server_corpus) = (Loaded 1, server_store)
   \<and> prefix_scorer ''HTTPSer'' ''HTTPServer'' = 70
   \<and> FuzzySearch_search example_str prefix_scorer server_store ''HTTPSer'' 70 =
       Inr [\<lparr>term = ''HTTPServer'', definitions = [\<lparr>text = ''a web server'', see_also = []\<rparr>],
             confidence = 3152519739159347 / 4503599627370496, match_type = ''fuzzy''\<rparr>]
   \<and> (3152519739159347 / 4503599627370496 :: real) < of_int 70 / 100
   \<and> (3152519739159347 / 4503599627370496 :: real) \<noteq> 70 / 100"
proof -
  have "prefix_scorer ''HTTPSer'' ''HTTPServer'' = 70"
    by (simp add: prefix_scorer_def)
  then show ?thesis
    using new_GlossaryManager_server search_server by simp
qed

text \<open>
  Claim C6, amended. For every query and every threshold from 0 on, when the scorer stays
  within 100 on the searchable names (as \<^verbatim>\<open>fuzz.WRatio\<close> does), every result of
  \<^verbatim>\<open>FuzzySearch.search\<close> has match type \<open>fuzzy\<close> and as confidence the float quotient of
  an extracted match's score by 100 (the double nearest to the exact quotient), which is at
  least the float quotient of the threshold by 100 and at most 1; at most 10 matches are
  extracted and at most 10 results returned.
\<close>

theorem fuzzy_search_confidence_bounds:
  assumes "FuzzySearch_search str_of scorer st query threshold = Inr rs"
    and "\<forall>c \<in> set (all_searchable_terms st). scorer query c \<le> 100"
    and "0 \<le> threshold"
  shows "length rs \<le> 10
     \<and> length (process_extract scorer query (all_searchable_terms st) 10 (of_int threshold)) \<le> 10
     \<and> (\<forall>r \<in> set rs.
           match_type r = ''fuzzy''
         \<and> (\<exists>m \<in> set (process_extract scorer query (all_searchable_terms st) 10 (of_int threshold)).
               TermResult.term r = get_original_term st (fst m)
             \<and> fst (snd m) = scorer query (fst m)
             \<and> confidence r = float_div (fst (snd m)) 100)
         \<and> float_div (of_int threshold) 100 \<le> confidence r
         \<and> confidence r \<le> 1)"
proof -
  let ?ms = "process_extract scorer query (all_searchable_terms st) 10 (of_int threshold)"
  from search_from_pass [OF assms(1)] obtain pass
    where pass: "scoring_pass str_of scorer st query threshold = Inr pass"
      and rs: "rs = sort_reverse confidence pass"
    by blast
  from pass have run: "collect_matches str_of st ?ms {} [] = Inr pass"
    by (simp add: scoring_pass_def)
  have len: "length ?ms \<le> 10"
    by (rule process_extract_length)
  from collect_matches_length [OF run] len have "length rs \<le> 10"
    by (simp add: rs length_sort_reverse)
  moreover have "\<forall>r \<in> set rs.
           match_type r = ''fuzzy''
         \<and> (\<exists>m \<in> set ?ms.
               TermResult.term r = get_original_term st (fst m)
             \<and> fst (snd m) = scorer query (fst m)
             \<and> confidence r = float_div (fst (snd m)) 100)
         \<and> float_div (of_int threshold) 100 \<le> confidence r
         \<and> confidence r \<le> 1"
  proof
    fix r assume "r \<in> set rs"
    then have "r \<in> set pass" by (simp add: rs set_sort_reverse)
    with collect_matches_inv [OF run] obtain pre m post
      where fz: "match_type r = ''fuzzy''" and ms: "?ms = pre @ m # post"
        and t: "TermResult.term r = get_original_term st (fst m)"
        and c: "confidence r = float_div (fst (snd m)) 100"
      by auto
    from ms have mem: "m \<in> set ?ms" by simp
    from process_extract_member [OF mem]
    have ch: "fst m \<in> set (all_searchable_terms st)" and sc: "fst (snd m) = scorer query (fst m)"
      and cut: "of_int threshold \<le> fst (snd m)"
      by simp_all
    from ch assms(2) sc have top: "fst (snd m) \<le> 100" by simp
    from assms(3) have low: "(0::real) \<le> of_int threshold / 100" by simp
    from cut have "of_int threshold / 100 \<le> fst (snd m) / 100"
      by (simp add: divide_right_mono)
    with low have "round_double (of_int threshold / 100) \<le> round_double (fst (snd m) / 100)"
      by (rule round_double_mono)
    then have lower_bound: "float_div (of_int threshold) 100 \<le> confidence r"
      by (simp add: c float_div_def)
    from low cut have "(0::real) \<le> fst (snd m) / 100" by simp
    moreover from top have "fst (snd m) / 100 \<le> 1" by simp
    ultimately have "round_double (fst (snd m) / 100) \<le> round_double 1"
      by (rule round_double_mono)
    then have upper_bound: "confidence r \<le> 1"
      by (simp add: c float_div_def round_double_1)
    from fz mem t sc c lower_bound upper_bound show "match_type r = ''fuzzy''
         \<and> (\<exists>m \<in> set ?ms.
               TermResult.term r = get_original_term st (fst m)
             \<and> fst (snd m) = scorer query (fst m)
             \<and> confidence r = float_div (fst (snd m)) 100)
         \<and> float_div (of_int threshold) 100 \<le> confidence r
         \<and> confidence r \<le> 1"
      by blast
  qed
  ultimately show ?thesis using len by blast
qed

theorem fuzzy_search_confidence_bounds_witness:
  "FuzzySearch_search example_str prefix_scorer web_store ''HTTO'' 50 = Inr web_results
   \<and> map (prefix_scorer ''HTTO'') (all_searchable_terms web_store) = [50, 75, 0, 60, 60, 60]
   \<and> (0::int) \<le> 50
   \<and> length web_results \<le> 10
   \<and> float_div (of_int 50) 100 = 1 / 2
   \<and> map confidence web_results =
       [3 / 4, 5404319552844595 / 9007199254740992, 5404319552844595 / 9007199254740992, 1 / 2]
   \<and> map match_type web_results = [''fuzzy'', ''fuzzy'', ''fuzzy'', ''fuzzy'']"
proof -
  have s: "map (prefix_scorer ''HTTO'') (all_searchable_terms web_store) = [50, 75, 0, 60, 60, 60]"
    by (simp add: web_store_def prefix_scorer_def)
  then have h: "\<forall>c \<in> set (all_searchable_terms web_store). prefix_scorer ''HTTO'' c \<le> 100"
    by (simp add: web_store_def)
  have z: "(0::int) \<le> 50"
    by simp
  have c: "map confidence web_results =
       [3 / 4, 5404319552844595 / 9007199254740992, 5404319552844595 / 9007199254740992, 1 / 2]"
    and m: "map match_type web_results = [''fuzzy'', ''fuzzy'', ''fuzzy'', ''fuzzy'']"
    by (simp_all add: web_results_def)
  have f: "float_div (of_int 50) 100 = 1 / 2"
    by (simp add: float_div_50)
  show ?thesis
    using s c m f search_web fuzzy_search_confidence_bounds [OF search_web h z] by simp
qed

section \<open>Suggestions and the agentic fallback\<close>

lemma relabel_map: "relabel label rs = map (\<lambda>r. r\<lparr>match_type := label\<rparr>) rs"
  by (induction rs) simp_all

lemma fuzzy_results_fuzzy:
  assumes "FuzzySearch_search str_of scorer st query threshold = Inr rs" and "r \<in> set rs"
  shows "match_type r = ''fuzzy''"
proof -
  from search_from_pass [OF assms(1)] obtain pass
    where pass: "scoring_pass str_of scorer st query threshold = Inr pass"
      and rs: "rs = sort_reverse confidence pass"
    by blast
  from pass have "collect_matches str_of st
       (process_extract scorer query (all_searchable_terms st) 10 (of_int threshold)) {} [] = Inr pass"
    by (simp add: scoring_pass_def)
  from collect_matches_inv [OF this] assms(2) show ?thesis
    by (auto simp: rs set_sort_reverse)
qed

lemma collect_relevant_agentic:
  "collect_relevant str_of st ts responses = Inr out \<Longrightarrow> r \<in> set out \<Longrightarrow>
   r \<in> set responses \<or> match_type r = ''agentic''"
proof (induction ts arbitrary: responses)
  case Nil
  then show ?case by simp
next
  case (Cons t rest)
  show ?case
  proof (cases "term_exists st t")
    case False
    with Cons.prems have "collect_relevant str_of st rest responses = Inr out" by simp
    from Cons.IH [OF this Cons.prems(2)] show ?thesis .
  next
    case True
    show ?thesis
    proof (cases "get_term_object str_of st t")
      case (Inl e)
      with True Cons.prems show ?thesis by simp
    next
      case (Inr term_obj)
      with True Cons.prems have
        "collect_relevant str_of st rest
               (responses @
                 [\<lparr>term = t,
                   definitions = GlossaryTerm.definitions term_obj,
                   confidence = 1,
                   match_type = ''agentic''\<rparr>]) = Inr out"
        by simp
      from Cons.IH [OF this Cons.prems(2)] show ?thesis by auto
    qed
  qed
qed

lemma fallback_results:
  "r \<in> set (relabel label (take n rs)) \<Longrightarrow> match_type r = label"
  by (auto simp: relabel_map)

lemma agentic_results_types:
  assumes "AgenticSearch_search str_of scorer list_of_set agent st query context = Inr out"
    and "r \<in> set out"
  shows "match_type r = ''agentic'' \<or> match_type r = ''agentic_fallback''"
proof (cases agent)
  case None
  with assms show ?thesis
    by (auto simp: AgenticSearch_search_def split: sum.splits dest: fallback_results)
next
  case (Some run)
  show ?thesis
  proof (cases "agentic_attempt str_of list_of_set run st query context")
    case (Inl e)
    with Some assms show ?thesis
      by (auto simp: AgenticSearch_search_def split: sum.splits dest: fallback_results)
  next
    case (Inr responses)
    with Some assms have out: "out = responses"
      by (simp add: AgenticSearch_search_def)
    from Inr obtain ts where "collect_relevant str_of st ts [] = Inr responses"
      by (auto simp: agentic_attempt_def Let_def split: sum.splits)
    from collect_relevant_agentic [OF this] assms(2) out show ?thesis by auto
  qed
qed

text \<open>
  Claim C7. For every input whose lowercase form is not in the normalized map,
  \<^verbatim>\<open>ExactSearch.lookup\<close> returns exactly the first three results of the fuzzy search at
  threshold 60, each with the match type set to \<open>suggestion\<close> and the other fields as
  they were (and raises what that search raises). Every result \<^verbatim>\<open>lookup\<close> returns has
  match type \<open>exact\<close> or \<open>suggestion\<close>; the results of the fuzzy search have \<open>fuzzy\<close> and
  those of the agentic search \<open>agentic\<close> or \<open>agentic_fallback\<close>, so no other search
  produces \<open>suggestion\<close>.
\<close>

theorem lookup_miss_suggestions:
  "(normalized_terms st (lower t) = None \<longrightarrow>
      ExactSearch_lookup str_of scorer st t =
        (case FuzzySearch_search str_of scorer st t 60 of
           Inl e \<Rightarrow> Inl e
         | Inr results \<Rightarrow> Inr (map (\<lambda>r. r\<lparr>match_type := ''suggestion''\<rparr>) (take 3 results))))
   \<and> (\<forall>rs. ExactSearch_lookup str_of scorer st t = Inr rs \<longrightarrow>
         (\<forall>r \<in> set rs. match_type r = ''exact'' \<or> match_type r = ''suggestion''))
   \<and> (\<forall>rs. FuzzySearch_search str_of scorer st query threshold = Inr rs \<longrightarrow>
         (\<forall>r \<in> set rs. match_type r = ''fuzzy''))
   \<and> (\<forall>rs. AgenticSearch_search str_of scorer list_of_set agent st query context = Inr rs \<longrightarrow>
         (\<forall>r \<in> set rs. match_type r = ''agentic'' \<or> match_type r = ''agentic_fallback''))"
proof (intro conjI allI impI ballI)
  assume "normalized_terms st (lower t) = None"
  then show "ExactSearch_lookup str_of scorer st t =
        (case FuzzySearch_search str_of scorer st t 60 of
           Inl e \<Rightarrow> Inl e
         | Inr results \<Rightarrow> Inr (map (\<lambda>r. r\<lparr>match_type := ''suggestion''\<rparr>) (take 3 results)))"
    by (simp add: ExactSearch_lookup_def Let_def relabel_map split: sum.splits)
next
  fix rs r
  assume "ExactSearch_lookup str_of scorer st t = Inr rs" and "r \<in> set rs"
  then show "match_type r = ''exact'' \<or> match_type r = ''suggestion''"
    by (auto simp: ExactSearch_lookup_def Let_def split: option.splits sum.splits
        dest: fallback_results)
next
  fix rs r
  assume "FuzzySearch_search str_of scorer st query threshold = Inr rs" and "r \<in> set rs"
  then show "match_type r = ''fuzzy''"
    by (rule fuzzy_results_fuzzy)
next
  fix rs r
  assume "AgenticSearch_search str_of scorer list_of_set agent st query context = Inr rs"
    and "r \<in> set rs"
  then show "match_type r = ''agentic'' \<or> match_type r = ''agentic_fallback''"
    by (rule agentic_results_types)
qed

lemma lower_HTTO: "lower ''HTTO'' = ''htto''"
  by code_simp

lemma extract_web_60:
  "process_extract prefix_scorer ''HTTO'' (all_searchable_terms web_store) 10 60 =
     [(''HTTP'', 75, 1), (''HTTPS'', 60, 3), (''HTTPD'', 60, 4), (''HTTP2'', 60, 5)]"
  by (simp add: process_extract_def web_store_def prefix_scorer_def sort_reverse_def upt_rec)

lemma search_web_60:
  "FuzzySearch_search example_str prefix_scorer web_store ''HTTO'' 60 = Inr (take 3 web_results)"
proof -
  have ne: "all_searchable_terms web_store \<noteq> []" by (simp add: web_store_def)
  have pass: "scoring_pass example_str prefix_scorer web_store ''HTTO'' 60 = Inr (take 3 web_results)"
    unfolding scoring_pass_def
    apply (simp add: extract_web_60)
    apply (simp add: web_store_def web_results_def get_original_term_def term_exists_def
      get_term_object_def get_term_data_def new_Definition_def float_div_75 float_div_60 float_div_50
      lower_HTTP lower_HTTPS lower_HTTPD lower_HTTP2)
    done
  have "sort_reverse confidence (take 3 web_results) = take 3 web_results"
    by (simp add: sort_reverse_def web_results_def)
  with ne pass show ?thesis
    by (simp add: FuzzySearch_search_def)
qed

theorem lookup_miss_suggestions_witness:
  "normalized_terms web_store (lower ''HTTO'') = None
   \<and> FuzzySearch_search example_str prefix_scorer web_store ''HTTO'' 60 = Inr (take 3 web_results)
   \<and> ExactSearch_lookup example_str prefix_scorer web_store ''HTTO'' = Inr web_suggestions
   \<and> map match_type web_suggestions = [''suggestion'', ''suggestion'', ''suggestion'']
   \<and> map match_type (take 3 web_results) = [''fuzzy'', ''fuzzy'', ''fuzzy'']
   \<and> AgenticSearch_search example_str prefix_scorer remdups None web_store ''HTTO'' None
       = Inr (map (\<lambda>r. r\<lparr>match_type := ''agentic_fallback''\<rparr>) (take 3 web_results))"
proof -
  have miss: "normalized_terms web_store (lower ''HTTO'') = None"
    by (simp add: web_store_def lower_HTTO)
  have sug: "map (\<lambda>r. r\<lparr>match_type := ''suggestion''\<rparr>) (take 3 web_results) = web_suggestions"
    by (simp add: web_results_def web_suggestions_def)
  have types: "map match_type web_suggestions = [''suggestion'', ''suggestion'', ''suggestion'']"
    "map match_type (take 3 web_results) = [''fuzzy'', ''fuzzy'', ''fuzzy'']"
    by (simp_all add: web_results_def web_suggestions_def)
  have ag: "AgenticSearch_search example_str prefix_scorer remdups None web_store ''HTTO'' None
       = Inr (map (\<lambda>r. r\<lparr>match_type := ''agentic_fallback''\<rparr>) (take 3 web_results))"
    by (simp add: AgenticSearch_search_def search_web_60 relabel_map web_results_def)
  show ?thesis
    using miss sug types ag search_web_60
      lookup_miss_suggestions [of web_store "''HTTO''" example_str prefix_scorer
        "''HTTO''" 60 remdups None None]
    by simp
qed

lemma lower_w: "lower ''w'' = ''w''"
  by code_simp

lemma lower_e: "lower ''e'' = ''e''"
  by code_simp

lemma lower_b: "lower ''b'' = ''b''"
  by code_simp

lemma new_GlossaryManager_scalar:
  "new_GlossaryManager (Parsed scalar_corpus) = (Loaded 1, scalar_store)"
  by (simp add: new_GlossaryManager_def load_glossary_def scalar_corpus_def scalar_store_def
      build_search_indexes_def empty_store_def add_name_def lower_HTTP lower_w lower_e lower_b)

text \<open>
  Claim C8, as stated: whenever the agent is absent or its invocation fails,
  \<^verbatim>\<open>AgenticSearch.search\<close> returns a list and never an error. The fallback runs outside
  any \<^verbatim>\<open>try\<close>: in \<open>scalar_store\<close>, whose only definition does not validate, the fuzzy
  search called by the fallback raises, and the agentic search raises with it, with no
  agent as well as with an agent that fails.
\<close>

theorem agentic_fallback_raises_counterexample:
  "new_GlossaryManager (Parsed scalar_corpus) = (Loaded 1, scalar_store)
   \<and> FuzzySearch_search example_str prefix_scorer scalar_store ''HTTP'' 60 = Inl ValidationError
   \<and> AgenticSearch_search example_str prefix_scorer remdups None scalar_store ''HTTP'' None
       = Inl ValidationError
   \<and> AgenticSearch_search example_str prefix_scorer remdups (Some (\<lambda>request corpus_text. Inl AgentError))
         scalar_store ''HTTP'' None
       = Inl ValidationError"
proof -
  have ex: "process_extract prefix_scorer ''HTTP'' (all_searchable_terms scalar_store) 10 60
            = [(''HTTP'', 100, 0)]"
    by (simp add: process_extract_def scalar_store_def prefix_scorer_def sort_reverse_def upt_rec)
  have orig: "get_original_term scalar_store ''HTTP'' = ''HTTP''"
    "term_exists scalar_store ''HTTP''"
    by (simp_all add: get_original_term_def term_exists_def scalar_store_def lower_HTTP)
  have obj: "get_term_object example_str scalar_store ''HTTP'' = Inl ValidationError"
    by (simp add: get_term_object_def get_term_data_def scalar_store_def new_Definition_def)
  have "scoring_pass example_str prefix_scorer scalar_store ''HTTP'' 60 = Inl ValidationError"
    using orig ex obj by (simp add: scoring_pass_def)
  moreover have "all_searchable_terms scalar_store \<noteq> []"
    by (simp add: scalar_store_def)
  ultimately have fz:
    "FuzzySearch_search example_str prefix_scorer scalar_store ''HTTP'' 60 = Inl ValidationError"
    by (simp add: FuzzySearch_search_def)
  have "get_all_terms_text example_str remdups scalar_store = Inl ValidationError"
    apply (simp add: get_all_terms_text_def)
    apply (simp add: scalar_store_def)
    apply (simp add: obj [unfolded scalar_store_def])
    done
  then have att: "agentic_attempt example_str remdups (\<lambda>request corpus_text. Inl AgentError)
      scalar_store ''HTTP'' None = Inl ValidationError"
    by (simp add: agentic_attempt_def)
  show ?thesis
    using new_GlossaryManager_scalar fz att by (simp add: AgenticSearch_search_def)
qed

text \<open>
  Claim C8, amended. Whenever the agent is absent or the attempt with it raises,
  \<^verbatim>\<open>AgenticSearch.search\<close> does what the fuzzy search at threshold 60 does: when that
  search returns, the agentic search returns its first three results with the match type
  set to \<open>agentic_fallback\<close>, their terms among the terms of the fuzzy results. The
  exception of the attempt itself is never propagated.
\<close>

theorem agentic_search_fallback:
  assumes "agent = None \<or>
     (\<exists>run e. agent = Some run
        \<and> agentic_attempt str_of list_of_set run st query context = Inl e)"
  shows "AgenticSearch_search str_of scorer list_of_set agent st query context =
       (case FuzzySearch_search str_of scorer st query 60 of
          Inl e \<Rightarrow> Inl e
        | Inr results \<Rightarrow>
            Inr (map (\<lambda>r. r\<lparr>match_type := ''agentic_fallback''\<rparr>) (take 3 results)))
     \<and> (\<forall>results. FuzzySearch_search str_of scorer st query 60 = Inr results \<longrightarrow>
          (\<exists>out. AgenticSearch_search str_of scorer list_of_set agent st query context = Inr out
             \<and> set (map TermResult.term out) \<subseteq> set (map TermResult.term results)
             \<and> (\<forall>r \<in> set out. match_type r = ''agentic_fallback'')))"
proof -
  have eq: "AgenticSearch_search str_of scorer list_of_set agent st query context =
       (case FuzzySearch_search str_of scorer st query 60 of
          Inl e \<Rightarrow> Inl e
        | Inr results \<Rightarrow>
            Inr (map (\<lambda>r. r\<lparr>match_type := ''agentic_fallback''\<rparr>) (take 3 results)))"
    using assms
    by (auto simp: AgenticSearch_search_def relabel_map split: sum.splits)
  have "\<forall>results. FuzzySearch_search str_of scorer st query 60 = Inr results \<longrightarrow>
          (\<exists>out. AgenticSearch_search str_of scorer list_of_set agent st query context = Inr out
             \<and> set (map TermResult.term out) \<subseteq> set (map TermResult.term results)
             \<and> (\<forall>r \<in> set out. match_type r = ''agentic_fallback''))"
  proof (intro allI impI)
    fix results
    assume fz: "FuzzySearch_search str_of scorer st query 60 = Inr results"
    let ?out = "map (\<lambda>r. r\<lparr>match_type := ''agentic_fallback''\<rparr>) (take 3 results)"
    have "AgenticSearch_search str_of scorer list_of_set agent st query context = Inr ?out"
      using eq fz by simp
    moreover have "set (map TermResult.term ?out) \<subseteq> set (map TermResult.term results)"
      by (auto dest: in_set_takeD)
    moreover have "\<forall>r \<in> set ?out. match_type r = ''agentic_fallback''"
      by auto
    ultimately show "\<exists>out. AgenticSearch_search str_of scorer list_of_set agent st query context = Inr out
             \<and> set (map TermResult.term out) \<subseteq> set (map TermResult.term results)
             \<and> (\<forall>r \<in> set out. match_type r = ''agentic_fallback'')"
      by blast
  qed
  with eq show ?thesis by blast
qed

theorem agentic_search_fallback_witness:
  "agentic_attempt example_str remdups (\<lambda>request corpus_text. Inl AgentError) web_store ''HTTO'' None
     = Inl AgentError
   \<and> FuzzySearch_search example_str prefix_scorer web_store ''HTTO'' 60 = Inr (take 3 web_results)
   \<and> AgenticSearch_search example_str prefix_scorer remdups
        (Some (\<lambda>request corpus_text. Inl AgentError)) web_store ''HTTO'' None
       = Inr (map (\<lambda>r. r\<lparr>match_type := ''agentic_fallback''\<rparr>) (take 3 web_results))
   \<and> map TermResult.term (take 3 web_results) = [''HTTP'', ''HTTPD'', ''HTTP2'']"
proof -
  have corpus_text: "\<exists>s. get_all_terms_text example_str remdups web_store = Inr s"
    by (simp add: get_all_terms_text_def web_store_def get_term_object_def get_term_data_def
        new_Definition_def)
  then have att: "agentic_attempt example_str remdups (\<lambda>request corpus_text. Inl AgentError)
      web_store ''HTTO'' None = Inl AgentError"
    by (auto simp: agentic_attempt_def)
  then have h: "Some (\<lambda>request corpus_text. Inl AgentError) = None \<or>
     (\<exists>run e. Some (\<lambda>request corpus_text. Inl AgentError) = Some run
        \<and> agentic_attempt example_str remdups run web_store ''HTTO'' None = Inl e)"
    by blast
  have t: "map TermResult.term (take 3 web_results) = [''HTTP'', ''HTTPD'', ''HTTP2'']"
    by (simp add: web_results_def)
  show ?thesis
    using att t search_web_60 agentic_search_fallback [OF h, of prefix_scorer]
    by simp
qed

section \<open>Exact lookup and the normalized map\<close>

subsection \<open>The writes of the index builder\<close>

lemma glossary_add_name: "glossary (add_name n ow st) = glossary st"
  by (simp add: add_name_def)

lemma apply_writes_Nil: "apply_writes [] st = st"
  by (simp add: apply_writes_def)

lemma apply_writes_Cons:
  "apply_writes (w # ws) st = apply_writes ws (add_name (fst w) (snd w) st)"
  by (simp add: apply_writes_def)

lemma apply_writes_append:
  "apply_writes (ws @ ws') st = apply_writes ws' (apply_writes ws st)"
  by (simp add: apply_writes_def)

lemma glossary_apply_writes: "glossary (apply_writes ws st) = glossary st"
  by (induction ws arbitrary: st) (simp_all add: apply_writes_Nil apply_writes_Cons glossary_add_name)

lemma searchable_apply_writes:
  "all_searchable_terms (apply_writes ws st) = all_searchable_terms st @ map fst ws"
  by (induction ws arbitrary: st) (simp_all add: apply_writes_Nil apply_writes_Cons add_name_def)

lemma normalized_apply_writes:
  "normalized_terms (apply_writes ws st) =
     normalized_terms st ++ map_of (rev (map (\<lambda>w. (lower (fst w), snd w)) ws))"
proof (induction ws arbitrary: st)
  case Nil
  then show ?case by (simp add: apply_writes_Nil)
next
  case (Cons w ws)
  have step: "normalized_terms (add_name (fst w) (snd w) st)
        = (normalized_terms st)(lower (fst w) \<mapsto> snd w)"
    by (simp add: add_name_def)
  have "normalized_terms (apply_writes (w # ws) st)
        = (normalized_terms st)(lower (fst w) \<mapsto> snd w)
            ++ map_of (rev (map (\<lambda>w. (lower (fst w), snd w)) ws))"
    by (simp only: apply_writes_Cons Cons.IH step)
  also have "\<dots> = normalized_terms st
            ++ map_of (rev (map (\<lambda>w. (lower (fst w), snd w)) (w # ws)))"
    by (rule ext) (simp add: map_add_def split: option.splits)
  finally show ?case .
qed

lemma index_see_also_writes:
  "index_see_also ow xs st = (None, st') \<Longrightarrow>
   st' = apply_writes (map (\<lambda>n. (n, ow)) (strs xs)) st"
proof (induction xs arbitrary: st)
  case Nil
  then show ?case by (simp add: strs_def apply_writes_Nil)
next
  case (Cons x xs)
  from Cons.prems obtain s where x: "x = YStr s"
    by (cases x) simp_all
  with Cons.prems have "index_see_also ow xs (add_name s ow st) = (None, st')"
    by simp
  from Cons.IH [OF this] x show ?case
    by (simp add: strs_def apply_writes_Cons)
qed

lemma index_definitions_writes:
  "index_definitions ow ds st = (None, st') \<Longrightarrow>
   st' = apply_writes (map (\<lambda>n. (n, ow)) (concat (map definition_names ds))) st"
proof (induction ds arbitrary: st)
  case Nil
  then show ?case by (simp add: apply_writes_Nil)
next
  case (Cons d ds)
  show ?case
  proof (cases "\<exists>dd v. d = YDict dd \<and> map_of dd ''see_also'' = Some v")
    case False
    then have names: "definition_names d = []"
      by (auto simp: definition_names_def split: yaml.splits option.splits)
    from False Cons.prems have "index_definitions ow ds st = (None, st')"
      by (auto split: yaml.splits option.splits)
    from Cons.IH [OF this] names show ?thesis by simp
  next
    case True
    then obtain dd v where d: "d = YDict dd" "map_of dd ''see_also'' = Some v"
      by blast
    with Cons.prems obtain xs st1 where it: "py_iter v = Inr xs"
      and inner: "index_see_also ow xs st = (None, st1)"
      and rest: "index_definitions ow ds st1 = (None, st')"
      by (auto split: sum.splits prod.splits option.splits)
    from d it have names: "definition_names d = strs xs"
      by (simp add: definition_names_def)
    from index_see_also_writes [OF inner] Cons.IH [OF rest] names show ?thesis
      by (simp add: apply_writes_append)
  qed
qed

lemma index_terms_writes:
  "index_terms ks st = (None, st') \<Longrightarrow> st' = apply_writes (index_writes (glossary st) ks) st"
proof (induction ks arbitrary: st)
  case Nil
  then show ?case by (simp add: index_writes_def apply_writes_Nil)
next
  case (Cons t ks)
  let ?st1 = "add_name t t st"
  from Cons.prems obtain term_data defs ds st2 where
    td: "map_of (glossary st) t = Some term_data"
    and dg: "dict_get term_data ''definitions'' (YList []) = Inr defs"
    and it: "py_iter defs = Inr ds"
    and inner: "index_definitions t ds ?st1 = (None, st2)"
    and rest: "index_terms ks st2 = (None, st')"
    by (auto simp: Let_def glossary_add_name split: option.splits sum.splits prod.splits)
  from td dg it have names: "term_names (glossary st) t = t # concat (map definition_names ds)"
    by (simp add: term_names_def)
  from index_definitions_writes [OF inner]
  have st2: "st2 = apply_writes (map (\<lambda>n. (n, t)) (term_names (glossary st) t)) st"
    by (simp add: names apply_writes_Cons)
  then have g: "glossary st2 = glossary st"
    by (simp add: glossary_apply_writes)
  from Cons.IH [OF rest] g st2 show ?case
    by (simp add: index_writes_def apply_writes_append)
qed

subsection \<open>The indexes of a loaded store\<close>

lemma empty_store_indexes:
  "normalized_terms empty_store =
     map_of (rev (map (\<lambda>w. (lower (fst w), snd w))
        (index_writes (glossary empty_store) (map fst (glossary empty_store)))))
   \<and> all_searchable_terms empty_store =
     map fst (index_writes (glossary empty_store) (map fst (glossary empty_store)))"
  by (simp add: empty_store_def index_writes_def)

lemma indexes_of_loaded:
  assumes "new_GlossaryManager src = (ev, st)"
  shows "normalized_terms st =
     map_of (rev (map (\<lambda>w. (lower (fst w), snd w))
        (index_writes (glossary st) (map fst (glossary st)))))
   \<and> all_searchable_terms st = map fst (index_writes (glossary st) (map fst (glossary st)))"
proof (cases "st = empty_store")
  case True
  then show ?thesis using empty_store_indexes by simp
next
  case False
  with assms obtain d where
    built: "build_search_indexes (empty_store\<lparr>glossary := d\<rparr>) = (None, st)"
    by (auto simp: new_GlossaryManager_def load_glossary_def
        split: source.splits yaml.splits prod.splits option.splits)
  let ?st0 = "empty_store\<lparr>glossary := d, normalized_terms := Map.empty, all_searchable_terms := []\<rparr>"
  from built have "index_terms (map fst d) ?st0 = (None, st)"
    by (simp add: build_search_indexes_def)
  from index_terms_writes [OF this]
  have st: "st = apply_writes (index_writes d (map fst d)) ?st0"
    by simp
  then have g: "glossary st = d"
    by (simp add: glossary_apply_writes)
  from st have "normalized_terms st =
      map_of (rev (map (\<lambda>w. (lower (fst w), snd w)) (index_writes d (map fst d))))"
    by (simp add: normalized_apply_writes)
  moreover from st have "all_searchable_terms st = map fst (index_writes d (map fst d))"
    by (simp add: searchable_apply_writes)
  ultimately show ?thesis using g by simp
qed

lemma searchable_terms_of_loaded:
  assumes "new_GlossaryManager src = (ev, st)"
  shows "all_searchable_terms st = concat (map (term_names (glossary st)) (map fst (glossary st)))"
proof -
  have "map fst (index_writes g ks) = concat (map (term_names g) ks)" for g ks
    by (induction ks) (simp_all add: index_writes_def comp_def)
  with indexes_of_loaded [OF assms] show ?thesis by simp
qed

lemma index_writes_member:
  "(n, ow) \<in> set (index_writes g ks) \<longleftrightarrow> ow \<in> set ks \<and> n \<in> set (term_names g ow)"
  by (auto simp: index_writes_def)

lemma map_of_single_owner:
  assumes "(k, v) \<in> set xs" and "\<forall>v'. (k, v') \<in> set xs \<longrightarrow> v' = v"
  shows "map_of xs k = Some v"
proof (cases "map_of xs k")
  case None
  with assms(1) show ?thesis
    by (metis map_of_eq_None_iff fst_conv image_eqI)
next
  case (Some v')
  then have "(k, v') \<in> set xs" by (rule map_of_SomeD)
  with assms(2) Some show ?thesis by simp
qed

lemma index_writes_append:
  "index_writes g (ks @ ks') = index_writes g ks @ index_writes g ks'"
  by (simp add: index_writes_def)

text \<open>A name resolves to the term that files it when no other term after that one files a
  name of the same lowercase form.\<close>

lemma normalized_of_last_name:
  assumes loaded: "new_GlossaryManager src = (ev, st)"
    and keys: "map fst (glossary st) = pre @ t # post"
    and name: "n \<in> set (term_names (glossary st) t)"
    and later: "\<forall>v \<in> set post. v \<noteq> t \<longrightarrow>
                 lower n \<notin> lower ` set (term_names (glossary st) v)"
  shows "normalized_terms st (lower n) = Some t"
proof -
  let ?g = "glossary st"
  let ?low = "map (\<lambda>w. (lower (fst w), snd w))"
  let ?early = "?low (index_writes ?g pre)"
  let ?late = "?low (index_writes ?g (t # post))"
  have split: "?low (index_writes ?g (map fst ?g)) = ?early @ ?late"
    by (simp add: keys index_writes_append)
  from name have "(n, t) \<in> set (index_writes ?g (t # post))"
    by (simp add: index_writes_member)
  then have mem: "(lower n, t) \<in> set (rev ?late)"
    by force
  have "\<forall>v'. (lower n, v') \<in> set (rev ?late) \<longrightarrow> v' = t"
  proof (intro allI impI)
    fix v' assume "(lower n, v') \<in> set (rev ?late)"
    then obtain n' where n': "(n', v') \<in> set (index_writes ?g (t # post))" "lower n' = lower n"
      by auto
    then have "v' = t \<or> v' \<in> set post" and "n' \<in> set (term_names ?g v')"
      by (auto simp: index_writes_member)
    with later n'(2) show "v' = t"
      by (metis image_eqI)
  qed
  with mem have "map_of (rev ?late) (lower n) = Some t"
    by (rule map_of_single_owner)
  then have "map_of (rev (?early @ ?late)) (lower n) = Some t"
    by (simp add: map_add_def)
  with indexes_of_loaded [OF loaded] split show ?thesis
    by simp
qed

subsection \<open>The names of a term object\<close>

lemma validate_strs_strs: "validate_strs xs = Inr ss \<Longrightarrow> ss = strs xs"
proof (induction xs arbitrary: ss)
  case Nil
  then show ?case by (simp add: strs_def)
next
  case (Cons x xs)
  from Cons.prems obtain s where x: "x = YStr s"
    by (cases x) simp_all
  with Cons.prems obtain ss' where ss': "validate_strs xs = Inr ss'" "ss = s # ss'"
    by (auto split: sum.splits)
  from Cons.IH [OF ss'(1)] x ss'(2) show ?case
    by (simp add: strs_def)
qed

lemma new_Definition_names:
  assumes "new_Definition
             (case map_of d ''text'' of Some v \<Rightarrow> v | None \<Rightarrow> YStr [])
             (case map_of d ''see_also'' of Some v \<Rightarrow> v | None \<Rightarrow> YList []) = Inr x"
  shows "see_also x = definition_names (YDict d)"
proof (cases "map_of d ''see_also''")
  case None
  with assms show ?thesis
    by (auto simp: new_Definition_def definition_names_def split: sum.splits)
next
  case (Some v)
  with assms obtain xs where v: "v = YList xs" and ok: "validate_strs xs = Inr (see_also x)"
    by (cases v) (auto simp: new_Definition_def split: sum.splits)
  from validate_strs_strs [OF ok] Some v show ?thesis
    by (simp add: definition_names_def)
qed

lemma convert_definitions_names:
  "convert_definitions str_of ds acc = Inr out \<Longrightarrow>
   concat (map see_also out) = concat (map see_also acc) @ concat (map definition_names ds)"
proof (induction ds arbitrary: acc)
  case Nil
  then show ?case by simp
next
  case (Cons d ds)
  show ?case
  proof (cases "\<exists>dd. d = YDict dd")
    case True
    then obtain dd where d: "d = YDict dd" by blast
    with Cons.prems obtain x where x: "new_Definition
             (case map_of dd ''text'' of Some v \<Rightarrow> v | None \<Rightarrow> YStr [])
             (case map_of dd ''see_also'' of Some v \<Rightarrow> v | None \<Rightarrow> YList []) = Inr x"
      and rest: "convert_definitions str_of ds (acc @ [x]) = Inr out"
      by (auto split: sum.splits)
    from Cons.IH [OF rest] new_Definition_names [OF x] d show ?thesis by simp
  next
    case False
    then have names: "definition_names d = []"
      by (cases d) (simp_all add: definition_names_def)
    from False Cons.prems
    have "convert_definitions str_of ds (acc @ [\<lparr>text = str_of d, see_also = []\<rparr>]) = Inr out"
      by (cases d) simp_all
    from Cons.IH [OF this] names show ?thesis by simp
  qed
qed

lemma term_object_names:
  assumes "get_term_object str_of st t = Inr obj"
  shows "GlossaryTerm.term obj = t
     \<and> t # concat (map see_also (GlossaryTerm.definitions obj)) = term_names (glossary st) t"
proof (cases "truthy (get_term_data st t)")
  case False
  with assms have obj: "obj = \<lparr>GlossaryTerm.term = t, GlossaryTerm.definitions = []\<rparr>"
    by (simp add: get_term_object_def)
  from False have "term_names (glossary st) t = [t]"
    by (cases "get_term_data st t")
       (auto simp: term_names_def get_term_data_def split: option.splits)
  with obj show ?thesis by simp
next
  case True
  with assms obtain defs ds converted where
    dg: "dict_get (get_term_data st t) ''definitions'' (YList []) = Inr defs"
    and it: "py_iter defs = Inr ds"
    and cv: "convert_definitions str_of ds [] = Inr converted"
    and obj: "obj = \<lparr>GlossaryTerm.term = t, GlossaryTerm.definitions = converted\<rparr>"
    by (auto simp: get_term_object_def Let_def split: sum.splits)
  from dg it have "term_names (glossary st) t = t # concat (map definition_names ds)"
    by (auto simp: term_names_def get_term_data_def split: option.splits)
  with convert_definitions_names [OF cv] obj show ?thesis by simp
qed

subsection \<open>Lookups that hit\<close>

lemma lower_http: "lower ''http'' = ''http''"
  by code_simp

lemma lower_https: "lower ''https'' = ''https''"
  by code_simp

lemma lower_protocol: "lower ''protocol'' = ''protocol''"
  by code_simp

lemma new_GlossaryManager_case:
  "new_GlossaryManager (Parsed case_corpus) = (Loaded 2, case_store)"
  by (simp add: new_GlossaryManager_def load_glossary_def case_corpus_def case_store_def
      build_search_indexes_def empty_store_def add_name_def lower_HTTP lower_http)

lemma new_GlossaryManager_xref:
  "new_GlossaryManager (Parsed xref_corpus) = (Loaded 2, xref_store)"
  by (simp add: new_GlossaryManager_def load_glossary_def xref_corpus_def xref_store_def
      build_search_indexes_def empty_store_def add_name_def lower_HTTP lower_HTTPS fun_upd_twist)

lemma new_GlossaryManager_shared:
  "new_GlossaryManager (Parsed shared_corpus) = (Loaded 2, shared_store)"
  by (simp add: new_GlossaryManager_def load_glossary_def shared_corpus_def shared_store_def
      build_search_indexes_def empty_store_def add_name_def lower_HTTP lower_FTP lower_protocol
      fun_upd_twist)

lemma new_GlossaryManager_sibling:
  "new_GlossaryManager (Parsed sibling_corpus) = (Loaded 1, sibling_store)"
  by (simp add: new_GlossaryManager_def load_glossary_def sibling_corpus_def sibling_store_def
      build_search_indexes_def empty_store_def add_name_def lower_HTTP lower_web_protocol)

text \<open>The exact result for a name of a term, when no other term after that one files a
  name of the same lowercase form.\<close>

lemma lookup_of_last_name:
  assumes loaded: "new_GlossaryManager src = (ev, st)"
    and keys: "map fst (glossary st) = pre @ t # post"
    and name: "n \<in> set (term_names (glossary st) t)"
    and later: "\<forall>v \<in> set post. v \<noteq> t \<longrightarrow>
                 lower n \<notin> lower ` set (term_names (glossary st) v)"
    and casing: "lower q = lower n"
    and obj: "get_term_object str_of st t = Inr obj"
  shows "ExactSearch_lookup str_of scorer st q =
           Inr [\<lparr>term = t, definitions = GlossaryTerm.definitions obj,
                 confidence = 1, match_type = ''exact''\<rparr>]"
proof -
  from normalized_of_last_name [OF loaded keys name later]
  have "normalized_terms st (lower q) = Some t"
    by (simp add: casing)
  with obj show ?thesis
    by (simp add: ExactSearch_lookup_def)
qed

lemma web_HTTP_object:
  "get_term_object example_str web_store ''HTTP'' =
     Inr \<lparr>GlossaryTerm.term = ''HTTP'',
          GlossaryTerm.definitions =
            [\<lparr>text = ''transfer protocol'', see_also = [''web protocol'', ''HTTPS'']\<rparr>]\<rparr>"
  by (simp add: web_store_def get_term_object_def get_term_data_def new_Definition_def)

lemma web_other_names:
  "term_names (glossary web_store) ''HTML'' = [''HTML'']"
  "term_names (glossary web_store) ''HTTPD'' = [''HTTPD'']"
  "term_names (glossary web_store) ''HTTP2'' = [''HTTP2'']"
  by (simp_all add: web_store_def term_names_def definition_names_def)

lemma web_keys: "map fst (glossary web_store) = [''HTML''] @ ''HTTP'' # [''HTTPD'', ''HTTP2'']"
  by (simp add: web_store_def)

text \<open>
  Claim C1, as stated: for every key of the loaded table, \<^verbatim>\<open>lookup\<close> with any casing of
  the key returns exactly one result, whose term is that key. With two keys that differ in
  case only it cannot hold for both, and the key filed last answers for the other; and
  where a definition of the key does not validate, the lookup raises.
\<close>

theorem lookup_key_counterexample:
  "new_GlossaryManager (Parsed case_corpus) = (Loaded 2, case_store)
   \<and> map fst (glossary case_store) = [''HTTP'', ''http'']
   \<and> ExactSearch_lookup example_str prefix_scorer case_store ''HTTP'' =
       Inr [\<lparr>term = ''http'', definitions = [\<lparr>text = ''the URL scheme'', see_also = []\<rparr>],
             confidence = 1, match_type = ''exact''\<rparr>]
   \<and> new_GlossaryManager (Parsed scalar_corpus) = (Loaded 1, scalar_store)
   \<and> map fst (glossary scalar_store) = [''HTTP'']
   \<and> ExactSearch_lookup example_str prefix_scorer scalar_store ''HTTP'' = Inl ValidationError"
proof -
  have a: "ExactSearch_lookup example_str prefix_scorer case_store ''HTTP'' =
       Inr [\<lparr>term = ''http'', definitions = [\<lparr>text = ''the URL scheme'', see_also = []\<rparr>],
             confidence = 1, match_type = ''exact''\<rparr>]"
    by (simp add: ExactSearch_lookup_def lower_HTTP case_store_def get_term_object_def
        get_term_data_def new_Definition_def)
  have c: "ExactSearch_lookup example_str prefix_scorer scalar_store ''HTTP'' = Inl ValidationError"
    by (simp add: ExactSearch_lookup_def lower_HTTP scalar_store_def get_term_object_def
        get_term_data_def new_Definition_def)
  have keys: "map fst (glossary case_store) = [''HTTP'', ''http'']"
    "map fst (glossary scalar_store) = [''HTTP'']"
    by (simp_all add: case_store_def scalar_store_def)
  show ?thesis
    using a c keys new_GlossaryManager_case new_GlossaryManager_scalar
    by simp
qed

text \<open>
  Claim C1, amended. For every key \<open>t\<close> of a table loaded by the constructor whose
  definitions convert to a term object, if no term after \<open>t\<close> in the table is filed under
  the lowercase form of \<open>t\<close>, \<^verbatim>\<open>lookup\<close> with any casing of \<open>t\<close> returns exactly one
  result: term \<open>t\<close>, the definitions of \<open>t\<close>, confidence 1 and match type \<open>exact\<close>. A
  later key of the same lowercase form takes the place of \<open>t\<close>, as it must for one of two
  such keys. Where the later name is a cross-reference, its write overwrites the entry the
  key had filed for itself; the statement is silent about those tables (see
  \<open>see_also_overwrites_key\<close> below).
\<close>

theorem lookup_key_exact:
  assumes "new_GlossaryManager src = (ev, st)"
    and "map fst (glossary st) = pre @ t # post"
    and "lower q = lower t"
    and "get_term_object str_of st t = Inr obj"
    and "\<forall>v \<in> set post. v \<noteq> t \<longrightarrow>
           lower t \<notin> lower ` set (term_names (glossary st) v)"
  shows "ExactSearch_lookup str_of scorer st q =
           Inr [\<lparr>term = t, definitions = GlossaryTerm.definitions obj,
                 confidence = 1, match_type = ''exact''\<rparr>]"
proof -
  have "t \<in> set (term_names (glossary st) t)"
    by (simp add: term_names_def)
  from lookup_of_last_name [OF assms(1,2) this assms(5,3,4)] show ?thesis .
qed

theorem lookup_key_exact_witness:
  "new_GlossaryManager (Parsed web_corpus) = (Loaded 4, web_store)
   \<and> map fst (glossary web_store) = [''HTML''] @ ''HTTP'' # [''HTTPD'', ''HTTP2'']
   \<and> lower ''http'' = lower ''HTTP''
   \<and> ExactSearch_lookup example_str prefix_scorer web_store ''http'' =
       Inr [\<lparr>term = ''HTTP'',
             definitions = [\<lparr>text = ''transfer protocol'', see_also = [''web protocol'', ''HTTPS'']\<rparr>],
             confidence = 1, match_type = ''exact''\<rparr>]
   \<and> new_GlossaryManager (Parsed xref_corpus) = (Loaded 2, xref_store)
   \<and> map fst (glossary xref_store) = [''HTTP''] @ ''HTTPS'' # []
   \<and> ExactSearch_lookup example_str prefix_scorer xref_store ''https'' =
       Inr [\<lparr>term = ''HTTPS'',
             definitions = [\<lparr>text = ''secure transfer protocol'', see_also = [''HTTP'']\<rparr>],
             confidence = 1, match_type = ''exact''\<rparr>]"
proof -
  have casing: "lower ''http'' = lower ''HTTP''"
    by (simp add: lower_http lower_HTTP)
  have later: "\<forall>v \<in> set [''HTTPD'', ''HTTP2'']. v \<noteq> ''HTTP'' \<longrightarrow>
           lower ''HTTP'' \<notin> lower ` set (term_names (glossary web_store) v)"
    by (simp add: web_other_names lower_HTTP lower_HTTPD lower_HTTP2)
  have xkeys: "map fst (glossary xref_store) = [''HTTP''] @ ''HTTPS'' # []"
    by (simp add: xref_store_def)
  have xcasing: "lower ''https'' = lower ''HTTPS''"
    by (simp add: lower_https lower_HTTPS)
  have xobj: "get_term_object example_str xref_store ''HTTPS'' =
       Inr \<lparr>GlossaryTerm.term = ''HTTPS'',
            GlossaryTerm.definitions =
              [\<lparr>text = ''secure transfer protocol'', see_also = [''HTTP'']\<rparr>]\<rparr>"
    by (simp add: xref_store_def get_term_object_def get_term_data_def new_Definition_def)
  have xlater: "\<forall>v \<in> set []. v \<noteq> ''HTTPS'' \<longrightarrow>
           lower ''HTTPS'' \<notin> lower ` set (term_names (glossary xref_store) v)"
    by simp
  show ?thesis
    using casing web_keys xkeys new_GlossaryManager_web new_GlossaryManager_xref
      lookup_key_exact [OF new_GlossaryManager_web web_keys casing web_HTTP_object later,
        of prefix_scorer]
      lookup_key_exact [OF new_GlossaryManager_xref xkeys xcasing xobj xlater,
        of prefix_scorer]
    by simp
qed

text \<open>The tables the amended claim C1 is silent about: a term after the key names the key
  as a cross-reference. The write for the cross-reference replaces the entry the key filed
  for itself, and the term can no longer be looked up by its own name.\<close>

lemma see_also_overwrites_key:
  "new_GlossaryManager (Parsed xref_corpus) = (Loaded 2, xref_store)
   \<and> ExactSearch_lookup example_str prefix_scorer xref_store ''HTTP'' =
       Inr [\<lparr>term = ''HTTPS'',
             definitions = [\<lparr>text = ''secure transfer protocol'', see_also = [''HTTP'']\<rparr>],
             confidence = 1, match_type = ''exact''\<rparr>]"
proof -
  have "ExactSearch_lookup example_str prefix_scorer xref_store ''HTTP'' =
       Inr [\<lparr>term = ''HTTPS'',
             definitions = [\<lparr>text = ''secure transfer protocol'', see_also = [''HTTP'']\<rparr>],
             confidence = 1, match_type = ''exact''\<rparr>]"
    by (simp add: ExactSearch_lookup_def lower_HTTP xref_store_def get_term_object_def
        get_term_data_def new_Definition_def)
  with new_GlossaryManager_xref show ?thesis by simp
qed

text \<open>
  Claim C2, as stated: for every cross-reference of a loaded term, \<^verbatim>\<open>lookup\<close> of the
  cross-reference returns that term's exact result. It fails where two terms have the same
  cross-reference (\<open>protocol\<close> is one of \<open>HTTP\<close>, the lookup answers with \<open>FTP\<close>), where
  the cross-reference is a later key itself (\<open>HTTPS\<close> is one of \<open>HTTP\<close>, the lookup answers
  with \<open>HTTPS\<close>), and where another definition of the term does not validate (the lookup
  raises).
\<close>

theorem lookup_see_also_counterexample:
  "new_GlossaryManager (Parsed shared_corpus) = (Loaded 2, shared_store)
   \<and> get_term_object example_str shared_store ''HTTP'' =
       Inr \<lparr>GlossaryTerm.term = ''HTTP'',
            GlossaryTerm.definitions = [\<lparr>text = ''for pages'', see_also = [''protocol'']\<rparr>]\<rparr>
   \<and> ExactSearch_lookup example_str prefix_scorer shared_store ''protocol'' =
       Inr [\<lparr>term = ''FTP'', definitions = [\<lparr>text = ''for files'', see_also = [''protocol'']\<rparr>],
             confidence = 1, match_type = ''exact''\<rparr>]
   \<and> new_GlossaryManager (Parsed xref_corpus) = (Loaded 2, xref_store)
   \<and> get_term_object example_str xref_store ''HTTP'' =
       Inr \<lparr>GlossaryTerm.term = ''HTTP'',
            GlossaryTerm.definitions = [\<lparr>text = ''transfer protocol'', see_also = [''HTTPS'']\<rparr>]\<rparr>
   \<and> ExactSearch_lookup example_str prefix_scorer xref_store ''HTTPS'' =
       Inr [\<lparr>term = ''HTTPS'',
             definitions = [\<lparr>text = ''secure transfer protocol'', see_also = [''HTTP'']\<rparr>],
             confidence = 1, match_type = ''exact''\<rparr>]
   \<and> new_GlossaryManager (Parsed sibling_corpus) = (Loaded 1, sibling_store)
   \<and> term_names (glossary sibling_store) ''HTTP'' = [''HTTP'', ''web protocol'']
   \<and> ExactSearch_lookup example_str prefix_scorer sibling_store ''web protocol''
       = Inl ValidationError"
proof -
  have a: "get_term_object example_str shared_store ''HTTP'' =
       Inr \<lparr>GlossaryTerm.term = ''HTTP'',
            GlossaryTerm.definitions = [\<lparr>text = ''for pages'', see_also = [''protocol'']\<rparr>]\<rparr>"
    by (simp add: shared_store_def get_term_object_def get_term_data_def new_Definition_def)
  have b: "ExactSearch_lookup example_str prefix_scorer shared_store ''protocol'' =
       Inr [\<lparr>term = ''FTP'', definitions = [\<lparr>text = ''for files'', see_also = [''protocol'']\<rparr>],
             confidence = 1, match_type = ''exact''\<rparr>]"
    by (simp add: ExactSearch_lookup_def lower_protocol shared_store_def get_term_object_def
        get_term_data_def new_Definition_def)
  have c: "get_term_object example_str xref_store ''HTTP'' =
       Inr \<lparr>GlossaryTerm.term = ''HTTP'',
            GlossaryTerm.definitions = [\<lparr>text = ''transfer protocol'', see_also = [''HTTPS'']\<rparr>]\<rparr>"
    by (simp add: xref_store_def get_term_object_def get_term_data_def new_Definition_def)
  have d: "ExactSearch_lookup example_str prefix_scorer xref_store ''HTTPS'' =
       Inr [\<lparr>term = ''HTTPS'',
             definitions = [\<lparr>text = ''secure transfer protocol'', see_also = [''HTTP'']\<rparr>],
             confidence = 1, match_type = ''exact''\<rparr>]"
    by (simp add: ExactSearch_lookup_def lower_HTTPS xref_store_def get_term_object_def
        get_term_data_def new_Definition_def)
  have e: "term_names (glossary sibling_store) ''HTTP'' = [''HTTP'', ''web protocol'']"
    by (simp add: sibling_store_def term_names_def definition_names_def strs_def)
  have f: "ExactSearch_lookup example_str prefix_scorer sibling_store ''web protocol''
       = Inl ValidationError"
    by (simp add: ExactSearch_lookup_def lower_web_protocol sibling_store_def
        get_term_object_def get_term_data_def new_Definition_def)
  show ?thesis
    using a b c d e f new_GlossaryManager_shared new_GlossaryManager_xref
      new_GlossaryManager_sibling
    by simp
qed

text \<open>
  Claim C2, amended. For every key \<open>t\<close> of a table loaded by the constructor whose
  definitions convert to a term object, and every cross-reference \<open>s\<close> in a definition of
  that term object, if no term after \<open>t\<close> in the table is filed under the lowercase form of
  \<open>s\<close> (neither as its own name nor as one of its cross-references), \<^verbatim>\<open>lookup\<close> with
  any casing of \<open>s\<close> returns exactly one result: term \<open>t\<close>, the definitions of \<open>t\<close>,
  confidence 1 and match type \<open>exact\<close>.
\<close>

theorem lookup_see_also_exact:
  assumes "new_GlossaryManager src = (ev, st)"
    and "map fst (glossary st) = pre @ t # post"
    and "get_term_object str_of st t = Inr obj"
    and "d \<in> set (GlossaryTerm.definitions obj)"
    and "s \<in> set (see_also d)"
    and "lower q = lower s"
    and "\<forall>v \<in> set post. v \<noteq> t \<longrightarrow>
           lower s \<notin> lower ` set (term_names (glossary st) v)"
  shows "ExactSearch_lookup str_of scorer st q =
           Inr [\<lparr>term = t, definitions = GlossaryTerm.definitions obj,
                 confidence = 1, match_type = ''exact''\<rparr>]"
proof -
  from assms(4,5) have "s \<in> set (concat (map see_also (GlossaryTerm.definitions obj)))"
    by auto
  with term_object_names [OF assms(3)] have "s \<in> set (term_names (glossary st) t)"
    by (metis list.set_intros(2))
  from lookup_of_last_name [OF assms(1,2) this assms(7,6,3)] show ?thesis .
qed

theorem lookup_see_also_exact_witness:
  "new_GlossaryManager (Parsed web_corpus) = (Loaded 4, web_store)
   \<and> map fst (glossary web_store) = [''HTML''] @ ''HTTP'' # [''HTTPD'', ''HTTP2'']
   \<and> get_term_object example_str web_store ''HTTP'' =
       Inr \<lparr>GlossaryTerm.term = ''HTTP'',
            GlossaryTerm.definitions =
              [\<lparr>text = ''transfer protocol'', see_also = [''web protocol'', ''HTTPS'']\<rparr>]\<rparr>
   \<and> lower ''https'' = lower ''HTTPS''
   \<and> ExactSearch_lookup example_str prefix_scorer web_store ''https'' =
       Inr [\<lparr>term = ''HTTP'',
             definitions = [\<lparr>text = ''transfer protocol'', see_also = [''web protocol'', ''HTTPS'']\<rparr>],
             confidence = 1, match_type = ''exact''\<rparr>]
   \<and> new_GlossaryManager (Parsed shared_corpus) = (Loaded 2, shared_store)
   \<and> map fst (glossary shared_store) = [''HTTP''] @ ''FTP'' # []
   \<and> ExactSearch_lookup example_str prefix_scorer shared_store ''protocol'' =
       Inr [\<lparr>term = ''FTP'', definitions = [\<lparr>text = ''for files'', see_also = [''protocol'']\<rparr>],
             confidence = 1, match_type = ''exact''\<rparr>]"
proof -
  let ?d = "\<lparr>text = ''transfer protocol'', see_also = [''web protocol'', ''HTTPS'']\<rparr>"
  have d: "?d \<in> set (GlossaryTerm.definitions
      \<lparr>GlossaryTerm.term = ''HTTP'', GlossaryTerm.definitions = [?d]\<rparr>)"
    by simp
  have s: "''HTTPS'' \<in> set (see_also ?d)"
    by simp
  have casing: "lower ''https'' = lower ''HTTPS''"
    by (simp add: lower_https lower_HTTPS)
  have later: "\<forall>v \<in> set [''HTTPD'', ''HTTP2'']. v \<noteq> ''HTTP'' \<longrightarrow>
           lower ''HTTPS'' \<notin> lower ` set (term_names (glossary web_store) v)"
    by (simp add: web_other_names lower_HTTPS lower_HTTPD lower_HTTP2)
  let ?f = "\<lparr>text = ''for files'', see_also = [''protocol'']\<rparr>"
  have skeys: "map fst (glossary shared_store) = [''HTTP''] @ ''FTP'' # []"
    by (simp add: shared_store_def)
  have sobj: "get_term_object example_str shared_store ''FTP'' =
       Inr \<lparr>GlossaryTerm.term = ''FTP'', GlossaryTerm.definitions = [?f]\<rparr>"
    by (simp add: shared_store_def get_term_object_def get_term_data_def new_Definition_def)
  have sd: "?f \<in> set (GlossaryTerm.definitions
      \<lparr>GlossaryTerm.term = ''FTP'', GlossaryTerm.definitions = [?f]\<rparr>)"
    by simp
  have ss: "''protocol'' \<in> set (see_also ?f)"
    by simp
  have slater: "\<forall>v \<in> set []. v \<noteq> ''FTP'' \<longrightarrow>
           lower ''protocol'' \<notin> lower ` set (term_names (glossary shared_store) v)"
    by simp
  show ?thesis
    using casing web_keys skeys new_GlossaryManager_web new_GlossaryManager_shared web_HTTP_object
      lookup_see_also_exact [OF new_GlossaryManager_web web_keys web_HTTP_object d s casing later,
        of prefix_scorer]
      lookup_see_also_exact [OF new_GlossaryManager_shared skeys sobj sd ss refl slater,
        of prefix_scorer]
    by simp
qed

end
